theory Spec2Isabelle
  imports Complex_Main
begin

section \<open>Entities and Python values\<close>

text \<open>
  The rule builders of \<^verbatim>\<open>ctparse/time/rules.py\<close> are Python functions of a reference
  timestamp and the matched values. A builder returns an entity, returns \<^verbatim>\<open>None\<close>
  (the combination is rejected), or raises. The three outcomes are kept apart: the
  result type is \<open>py_error + 'a option\<close>, with \<open>Inl\<close> for a raised exception and
  \<open>Inr None\<close> for a returned \<^verbatim>\<open>None\<close>.
\<close>

datatype py_error = TypeError | ValueError | OverflowError | KeyError | IndexError
  | ZeroDivisionError

text \<open>
  Modelled from the spec: the entity classes \<^verbatim>\<open>Time\<close> and \<^verbatim>\<open>Interval\<close> of
  \<^verbatim>\<open>ctparse/types.py\<close>. A \<^verbatim>\<open>Time\<close> has the independently optional fields year, month,
  day, hour, minute, DOW and POD; an \<^verbatim>\<open>Interval\<close> is a pair of optional \<^verbatim>\<open>Time\<close>s.
\<close>

record Time =
  year :: "int option"
  month :: "int option"
  day :: "int option"
  hour :: "int option"
  minute :: "int option"
  DOW :: "int option"
  POD :: "string option"

record Interval =
  t_from :: "Time option"
  t_to :: "Time option"

text \<open>\<^verbatim>\<open>Time()\<close> with no keyword argument: every field is \<^verbatim>\<open>None\<close>.\<close>

definition Time_unset :: Time where
  "Time_unset = \<lparr>year = None, month = None, day = None, hour = None, minute = None,
     DOW = None, POD = None\<rparr>"

subsection \<open>Strings\<close>

text \<open>\<^verbatim>\<open>s.startswith(p)\<close> and the substring test \<^verbatim>\<open>sub in s\<close>.\<close>

definition startswith :: "string \<Rightarrow> string \<Rightarrow> bool" where
  "startswith s p = (take (length p) s = p)"

fun str_in :: "string \<Rightarrow> string \<Rightarrow> bool" where
  "str_in sub [] = (sub = [])"
| "str_in sub (c # cs) = (startswith (c # cs) sub \<or> str_in sub cs)"

text \<open>
  \<^verbatim>\<open>int(s)\<close> on the text of a regex group. The groups read by the builders are matched
  by digit-only sub-patterns, so the model reads a non-empty string of ASCII digits and
  raises \<^verbatim>\<open>ValueError\<close> on any other string.
\<close>

definition is_digit :: "char \<Rightarrow> bool" where
  "is_digit c = (c \<in> set ''0123456789'')"

definition digit_val :: "char \<Rightarrow> int" where
  "digit_val c = int (of_char c) - 48"

fun digits_val :: "int \<Rightarrow> string \<Rightarrow> int" where
  "digits_val acc [] = acc"
| "digits_val acc (c # cs) = digits_val (10 * acc + digit_val c) cs"

definition py_int :: "string \<Rightarrow> py_error + int" where
  "py_int s = (if s \<noteq> [] \<and> list_all is_digit s then Inr (digits_val 0 s) else Inl ValueError)"

subsection \<open>Comparisons of optional integers\<close>

text \<open>
  In Python 3 an ordering comparison with \<^verbatim>\<open>None\<close> on either side raises
  \<^verbatim>\<open>TypeError\<close>; \<^verbatim>\<open>==\<close> never raises.
\<close>

definition py_gt :: "int option \<Rightarrow> int option \<Rightarrow> py_error + bool" where
  "py_gt a b = (case a of None \<Rightarrow> Inl TypeError
     | Some x \<Rightarrow> (case b of None \<Rightarrow> Inl TypeError | Some y \<Rightarrow> Inr (x > y)))"

definition py_ge :: "int option \<Rightarrow> int option \<Rightarrow> py_error + bool" where
  "py_ge a b = (case a of None \<Rightarrow> Inl TypeError
     | Some x \<Rightarrow> (case b of None \<Rightarrow> Inl TypeError | Some y \<Rightarrow> Inr (x \<ge> y)))"

text \<open>
  \<^verbatim>\<open>if c: return None\<close> followed by the rest of the function body, where evaluating
  the condition may raise.
\<close>

definition reject_if :: "py_error + bool \<Rightarrow> (py_error + 'a option) \<Rightarrow> py_error + 'a option" where
  "reject_if c rest = (case c of Inl e \<Rightarrow> Inl e | Inr b \<Rightarrow> if b then Inr None else rest)"

section \<open>The reference timestamp\<close>

text \<open>
  A naive \<^verbatim>\<open>datetime.datetime\<close>: the seven integer fields, compared as the tuple
  (year, month, day, hour, minute, second, microsecond).
\<close>

record datetime =
  dyear :: int
  dmonth :: int
  dday :: int
  dhour :: int
  dminute :: int
  dsecond :: int
  dmicrosecond :: int

section \<open>Clock-time rules\<close>

text \<open>
  The match object handed to \<^verbatim>\<open>ruleHHMM\<close>: the text of the named groups \<^verbatim>\<open>hour\<close>
  (always present in a match), \<^verbatim>\<open>minute\<close> and \<^verbatim>\<open>ampm\<close> (\<^verbatim>\<open>None\<close> when the optional
  group did not take part in the match). The pattern of the \<^verbatim>\<open>ampm\<close> group is
  \<^verbatim>\<open>\s*[ap]\.?m\.?\<close>, so its text may begin with whitespace.
\<close>

record hhmm_match =
  g_hour :: string
  g_minute :: "string option"
  g_ampm :: "string option"

text \<open>\<^verbatim>\<open>int(m.match.group('minute') or 0)\<close>: \<^verbatim>\<open>None\<close> and the empty string are falsy.\<close>

definition minute_or_0 :: "string option \<Rightarrow> py_error + int" where
  "minute_or_0 g = (case g of None \<Rightarrow> Inr 0 | Some s \<Rightarrow> if s = [] then Inr 0 else py_int s)"

definition ruleHHMM :: "datetime \<Rightarrow> hhmm_match \<Rightarrow> py_error + Time option" where
  "ruleHHMM ts m =
    (case py_int (g_hour m) of Inl e \<Rightarrow> Inl e
     | Inr h \<Rightarrow>
       (case minute_or_0 (g_minute m) of Inl e \<Rightarrow> Inl e
        | Inr mi \<Rightarrow>
          (let t = Time_unset\<lparr>hour := Some h, minute := Some mi\<rparr> in
           (case g_ampm m of None \<Rightarrow> Inr (Some t)
            | Some a \<Rightarrow>
                if startswith a ''a'' \<and> h \<le> 12 then Inr (Some t)
                else if startswith a ''p'' \<and> h \<le> 12
                  then Inr (Some (Time_unset\<lparr>hour := Some (h + 12), minute := Some mi\<rparr>))
                else Inr (Some t)))))"

definition ruleTODPOD :: "datetime \<Rightarrow> Time \<Rightarrow> Time \<Rightarrow> py_error + Time option" where
  "ruleTODPOD ts tod pod =
    (case hour tod of None \<Rightarrow> Inl TypeError
     | Some th \<Rightarrow>
       (case POD pod of None \<Rightarrow> Inl TypeError
        | Some p \<Rightarrow>
            if th \<le> 12 \<and> (str_in ''afternoon'' p \<or> str_in ''evening'' p \<or> str_in ''night'' p)
              then Inr (Some (Time_unset\<lparr>hour := Some (th + 12), minute := minute tod\<rparr>))
            else if th > 12 \<and> (str_in ''beforenoon'' p \<or> str_in ''morning'' p)
              then Inr None
            else Inr (Some (Time_unset\<lparr>hour := Some th, minute := minute tod\<rparr>))))"

definition rulePODTOD :: "datetime \<Rightarrow> Time \<Rightarrow> Time \<Rightarrow> py_error + Time option" where
  "rulePODTOD ts pod tod = ruleTODPOD ts tod pod"

section \<open>Interval rules\<close>

definition ruleDateDate :: "datetime \<Rightarrow> Time \<Rightarrow> Time \<Rightarrow> py_error + Interval option" where
  "ruleDateDate ts d1 d2 =
    reject_if (py_gt (year d1) (year d2))
   (reject_if (if year d1 = year d2 then py_gt (month d1) (month d2) else Inr False)
   (reject_if (if year d1 = year d2 \<and> month d1 = month d2 then py_ge (day d1) (day d2)
               else Inr False)
   (Inr (Some \<lparr>t_from = Some d1, t_to = Some d2\<rparr>))))"

definition ruleDateTimeDateTime :: "datetime \<Rightarrow> Time \<Rightarrow> Time \<Rightarrow> py_error + Interval option" where
  "ruleDateTimeDateTime ts d1 d2 =
    reject_if (py_gt (year d1) (year d2))
   (reject_if (if year d1 = year d2 then py_gt (month d1) (month d2) else Inr False)
   (reject_if (if year d1 = year d2 \<and> month d1 = month d2 then py_gt (day d1) (day d2)
               else Inr False)
   (reject_if (if year d1 = year d2 \<and> month d1 = month d2 \<and> day d1 = day d2
               then py_gt (hour d1) (hour d2) else Inr False)
   (reject_if (if year d1 = year d2 \<and> month d1 = month d2 \<and> day d1 = day d2
                  \<and> hour d1 = hour d2
               then py_ge (minute d1) (minute d2) else Inr False)
   (Inr (Some \<lparr>t_from = Some d1, t_to = Some d2\<rparr>))))))"

text \<open>
  In \<^verbatim>\<open>ruleTODTOD\<close> the minutes are tested with \<^verbatim>\<open>is None\<close> before they are
  compared, so only the hour comparison can raise.
\<close>

definition ruleTODTOD :: "datetime \<Rightarrow> Time \<Rightarrow> Time \<Rightarrow> py_error + Interval option" where
  "ruleTODTOD ts t1 t2 =
    reject_if (py_gt (hour t1) (hour t2))
     (if hour t1 = hour t2 then
        (if minute t1 \<noteq> None \<and> minute t2 \<noteq> None \<and> the (minute t1) \<ge> the (minute t2)
           then Inr None
         else if minute t1 = None \<and> minute t2 \<noteq> None then Inr None
         else if minute t1 = None \<and> minute t2 = None then Inr None
         else Inr (Some \<lparr>t_from = Some t1, t_to = Some t2\<rparr>))
      else Inr (Some \<lparr>t_from = Some t1, t_to = Some t2\<rparr>))"

section \<open>Calendar arithmetic\<close>

text \<open>
  The builders ground entities with \<^verbatim>\<open>datetime\<close> and \<^verbatim>\<open>dateutil.relativedelta\<close>.
  The library operations they use are written out: \<^verbatim>\<open>calendar.isleap\<close>,
  \<^verbatim>\<open>calendar.monthrange(y, m)[1]\<close>, \<^verbatim>\<open>toordinal()\<close>, \<^verbatim>\<open>weekday()\<close>, the tuple
  comparison of two naive datetimes, the addition of a whole number of days and the
  application of a \<^verbatim>\<open>relativedelta\<close>.
\<close>

definition isleap :: "int \<Rightarrow> bool" where
  "isleap y = (y mod 4 = 0 \<and> (y mod 100 \<noteq> 0 \<or> y mod 400 = 0))"

definition mdays :: "int \<Rightarrow> int" where
  "mdays m = (if m = 2 then 28 else if m = 4 \<or> m = 6 \<or> m = 9 \<or> m = 11 then 30 else 31)"

definition monthrange_days :: "int \<Rightarrow> int \<Rightarrow> int" where
  "monthrange_days y m = mdays m + (if m = 2 \<and> isleap y then 1 else 0)"

definition days_before_year :: "int \<Rightarrow> int" where
  "days_before_year y = (y - 1) * 365 + (y - 1) div 4 - (y - 1) div 100 + (y - 1) div 400"

definition days_before_month :: "int \<Rightarrow> int \<Rightarrow> int" where
  "days_before_month y m =
     [0, 31, 59, 90, 120, 151, 181, 212, 243, 273, 304, 334] ! nat (m - 1)
       + (if m > 2 \<and> isleap y then 1 else 0)"

definition toordinal :: "datetime \<Rightarrow> int" where
  "toordinal dt = days_before_year (dyear dt) + days_before_month (dyear dt) (dmonth dt) + dday dt"

text \<open>\<^verbatim>\<open>weekday()\<close>: Monday is 0, Sunday is 6.\<close>

definition weekday :: "datetime \<Rightarrow> int" where
  "weekday dt = (toordinal dt + 6) mod 7"

text \<open>The fields a \<^verbatim>\<open>datetime\<close> object can hold (its constructor rejects all others).\<close>

definition valid_datetime :: "datetime \<Rightarrow> bool" where
  "valid_datetime dt =
     (1 \<le> dyear dt \<and> dyear dt \<le> 9999 \<and> 1 \<le> dmonth dt \<and> dmonth dt \<le> 12
      \<and> 1 \<le> dday dt \<and> dday dt \<le> monthrange_days (dyear dt) (dmonth dt)
      \<and> 0 \<le> dhour dt \<and> dhour dt \<le> 23 \<and> 0 \<le> dminute dt \<and> dminute dt \<le> 59
      \<and> 0 \<le> dsecond dt \<and> dsecond dt \<le> 59
      \<and> 0 \<le> dmicrosecond dt \<and> dmicrosecond dt \<le> 999999)"

text \<open>\<^verbatim>\<open>a < b\<close> and \<^verbatim>\<open>a <= b\<close> on naive datetimes.\<close>

definition dt_lt :: "datetime \<Rightarrow> datetime \<Rightarrow> bool" where
  "dt_lt a b =
     (dyear a < dyear b \<or> (dyear a = dyear b \<and>
     (dmonth a < dmonth b \<or> (dmonth a = dmonth b \<and>
     (dday a < dday b \<or> (dday a = dday b \<and>
     (dhour a < dhour b \<or> (dhour a = dhour b \<and>
     (dminute a < dminute b \<or> (dminute a = dminute b \<and>
     (dsecond a < dsecond b \<or> (dsecond a = dsecond b \<and>
      dmicrosecond a < dmicrosecond b))))))))))))"

definition dt_le :: "datetime \<Rightarrow> datetime \<Rightarrow> bool" where
  "dt_le a b = (dt_lt a b \<or> a = b)"

text \<open>
  \<^verbatim>\<open>dt + timedelta(days=n)\<close>. Python adds \<open>n\<close> to the ordinal of the date, raises
  \<^verbatim>\<open>OverflowError\<close> unless the sum lies in \<open>1..3652059\<close> (the ordinal of 9999-12-31) and
  converts the sum back to a calendar date; the clock fields are unchanged. The
  conversion is modelled by stepping the calendar date \<open>n\<close> days.
\<close>

definition tomorrow :: "datetime \<Rightarrow> datetime" where
  "tomorrow dt =
     (if dday dt < monthrange_days (dyear dt) (dmonth dt) then dt\<lparr>dday := dday dt + 1\<rparr>
      else if dmonth dt < 12 then dt\<lparr>dmonth := dmonth dt + 1, dday := 1\<rparr>
      else dt\<lparr>dyear := dyear dt + 1, dmonth := 1, dday := 1\<rparr>)"

definition yesterday :: "datetime \<Rightarrow> datetime" where
  "yesterday dt =
     (if 1 < dday dt then dt\<lparr>dday := dday dt - 1\<rparr>
      else if 1 < dmonth dt
        then dt\<lparr>dmonth := dmonth dt - 1, dday := monthrange_days (dyear dt) (dmonth dt - 1)\<rparr>
      else dt\<lparr>dyear := dyear dt - 1, dmonth := 12, dday := 31\<rparr>)"

fun days_later :: "nat \<Rightarrow> datetime \<Rightarrow> datetime" where
  "days_later 0 dt = dt"
| "days_later (Suc n) dt = days_later n (tomorrow dt)"

fun days_earlier :: "nat \<Rightarrow> datetime \<Rightarrow> datetime" where
  "days_earlier 0 dt = dt"
| "days_earlier (Suc n) dt = days_earlier n (yesterday dt)"

definition add_days :: "datetime \<Rightarrow> int \<Rightarrow> py_error + datetime" where
  "add_days dt n =
     (if 0 < toordinal dt + n \<and> toordinal dt + n \<le> 3652059
      then Inr (if 0 \<le> n then days_later (nat n) dt else days_earlier (nat (- n)) dt)
      else Inl OverflowError)"

text \<open>
  A \<^verbatim>\<open>relativedelta\<close> with the keyword arguments the builders pass: the relative
  \<^verbatim>\<open>years\<close>, \<^verbatim>\<open>months\<close> and \<^verbatim>\<open>days\<close> (\<^verbatim>\<open>weeks=k\<close> is stored as \<open>7 * k\<close> days) and
  the absolute \<^verbatim>\<open>month\<close>, \<^verbatim>\<open>day\<close>, \<^verbatim>\<open>weekday\<close>, \<^verbatim>\<open>hour\<close> and \<^verbatim>\<open>minute\<close>.
\<close>

record relativedelta =
  rd_years :: int
  rd_months :: int
  rd_days :: int
  rd_month :: "int option"
  rd_day :: "int option"
  rd_weekday :: "int option"
  rd_hour :: "int option"
  rd_minute :: "int option"

definition relativedelta0 :: relativedelta where
  "relativedelta0 = \<lparr>rd_years = 0, rd_months = 0, rd_days = 0, rd_month = None,
     rd_day = None, rd_weekday = None, rd_hour = None, rd_minute = None\<rparr>"

text \<open>
  An integer \<^verbatim>\<open>weekday=w\<close> is replaced by \<^verbatim>\<open>weekdays[w]\<close>, an index into the tuple
  (MO, ..., SU): negative indices count from the end, others raise \<^verbatim>\<open>IndexError\<close>.
\<close>

definition weekday_arg :: "int option \<Rightarrow> py_error + int option" where
  "weekday_arg w =
     (case w of None \<Rightarrow> Inr None
      | Some i \<Rightarrow> if 0 \<le> i \<and> i \<le> 6 then Inr (Some i)
                  else if - 7 \<le> i \<and> i < 0 then Inr (Some (i + 7))
                  else Inl IndexError)"

text \<open>\<^verbatim>\<open>x or d\<close> on an optional integer: \<^verbatim>\<open>None\<close> and 0 are falsy.\<close>

definition or_else :: "int option \<Rightarrow> int \<Rightarrow> int" where
  "or_else x d = (case x of None \<Rightarrow> d | Some v \<Rightarrow> if v = 0 then d else v)"

text \<open>
  \<^verbatim>\<open>dt + rd\<close> (\<^verbatim>\<open>relativedelta.__radd__\<close>): the relative years and months and the
  absolute month are applied first, the day is clamped to the length of the resulting
  month, \<^verbatim>\<open>dt.replace\<close> sets the fields (raising \<^verbatim>\<open>ValueError\<close> on a field out of range,
  as \<^verbatim>\<open>calendar.monthrange\<close> does on a month outside 1..12), then the relative days are
  added, and last the date moves forward to the requested weekday.
\<close>

definition relativedelta_radd :: "datetime \<Rightarrow> relativedelta \<Rightarrow> py_error + datetime" where
  "relativedelta_radd dt rd =
     (let y0 = dyear dt + rd_years rd;
          m0 = or_else (rd_month rd) (dmonth dt);
          m1 = (if rd_months rd \<noteq> 0 then m0 + rd_months rd else m0);
          y = (if rd_months rd \<noteq> 0 \<and> m1 > 12 then y0 + 1
               else if rd_months rd \<noteq> 0 \<and> m1 < 1 then y0 - 1 else y0);
          m = (if rd_months rd \<noteq> 0 \<and> m1 > 12 then m1 - 12
               else if rd_months rd \<noteq> 0 \<and> m1 < 1 then m1 + 12 else m1)
      in if m < 1 \<or> 12 < m then Inl ValueError
         else
          (let d = min (monthrange_days y m) (or_else (rd_day rd) (dday dt));
               h = (case rd_hour rd of None \<Rightarrow> dhour dt | Some v \<Rightarrow> v);
               mi = (case rd_minute rd of None \<Rightarrow> dminute dt | Some v \<Rightarrow> v)
           in if y < 1 \<or> 9999 < y \<or> d < 1 \<or> h < 0 \<or> 23 < h \<or> mi < 0 \<or> 59 < mi
              then Inl ValueError
              else
               (case add_days (dt\<lparr>dyear := y, dmonth := m, dday := d, dhour := h,
                                  dminute := mi\<rparr>) (rd_days rd) of
                  Inl e \<Rightarrow> Inl e
                | Inr ret \<Rightarrow>
                   (case rd_weekday rd of None \<Rightarrow> Inr ret
                    | Some w \<Rightarrow> add_days ret ((7 - weekday ret + w) mod 7)))))"

section \<open>Grounding rules\<close>

text \<open>
  Modelled from the spec: \<^verbatim>\<open>Time.intersect(a, b, exclude=f)\<close> of \<^verbatim>\<open>ctparse/types.py\<close>.
  Each field takes whichever side has it set, \<open>a\<close> first; the field named by
  \<^verbatim>\<open>exclude\<close> is always taken from \<open>a\<close>.
\<close>

definition pick :: "bool \<Rightarrow> 'a option \<Rightarrow> 'a option \<Rightarrow> 'a option" where
  "pick excluded x y = (if excluded then x else (case x of None \<Rightarrow> y | Some v \<Rightarrow> Some v))"

definition Time_intersect :: "Time \<Rightarrow> Time \<Rightarrow> string \<Rightarrow> Time" where
  "Time_intersect a b exclude =
     \<lparr>year = pick (exclude = ''year'') (year a) (year b),
      month = pick (exclude = ''month'') (month a) (month b),
      day = pick (exclude = ''day'') (day a) (day b),
      hour = pick (exclude = ''hour'') (hour a) (hour b),
      minute = pick (exclude = ''minute'') (minute a) (minute b),
      DOW = pick (exclude = ''DOW'') (DOW a) (DOW b),
      POD = pick (exclude = ''POD'') (POD a) (POD b)\<rparr>"

text \<open>\<^verbatim>\<open>Time(year=dm.year, month=dm.month, day=dm.day)\<close>.\<close>

definition Time_ymd :: "datetime \<Rightarrow> Time" where
  "Time_ymd dm = Time_unset\<lparr>year := Some (dyear dm), month := Some (dmonth dm),
     day := Some (dday dm)\<rparr>"

text \<open>\<^verbatim>\<open>if dm <= ts: dm += rd\<close>, the step shared by the latent rules.\<close>

definition roll_if_past :: "datetime \<Rightarrow> datetime \<Rightarrow> relativedelta \<Rightarrow> py_error + datetime" where
  "roll_if_past ts dm rd = (if dt_le dm ts then relativedelta_radd dm rd else Inr dm)"

definition ruleNextDOW :: "datetime \<Rightarrow> Time \<Rightarrow> py_error + Time option" where
  "ruleNextDOW ts dow =
     (case weekday_arg (DOW dow) of Inl e \<Rightarrow> Inl e
      | Inr w \<Rightarrow>
        (case relativedelta_radd ts (relativedelta0\<lparr>rd_weekday := w, rd_days := 7\<rparr>) of
           Inl e \<Rightarrow> Inl e
         | Inr dm \<Rightarrow> Inr (Some (Time_intersect (Time_ymd dm) dow ''DOW''))))"

definition ruleLatentDOM :: "datetime \<Rightarrow> Time \<Rightarrow> py_error + Time option" where
  "ruleLatentDOM ts dom_t =
     (case relativedelta_radd ts (relativedelta0\<lparr>rd_day := day dom_t\<rparr>) of Inl e \<Rightarrow> Inl e
      | Inr dm \<Rightarrow>
        (case roll_if_past ts dm (relativedelta0\<lparr>rd_months := 1\<rparr>) of Inl e \<Rightarrow> Inl e
         | Inr dm' \<Rightarrow> Inr (Some (Time_ymd dm'))))"

definition ruleLatentDOW :: "datetime \<Rightarrow> Time \<Rightarrow> py_error + Time option" where
  "ruleLatentDOW ts dow =
     (case weekday_arg (DOW dow) of Inl e \<Rightarrow> Inl e
      | Inr w \<Rightarrow>
        (case relativedelta_radd ts (relativedelta0\<lparr>rd_weekday := w\<rparr>) of Inl e \<Rightarrow> Inl e
         | Inr dm \<Rightarrow>
           (case roll_if_past ts dm (relativedelta0\<lparr>rd_days := 7\<rparr>) of Inl e \<Rightarrow> Inl e
            | Inr dm' \<Rightarrow> Inr (Some (Time_intersect (Time_ymd dm') dow ''DOW'')))))"

definition ruleLatentDOY :: "datetime \<Rightarrow> Time \<Rightarrow> py_error + Time option" where
  "ruleLatentDOY ts doy =
     (case relativedelta_radd ts (relativedelta0\<lparr>rd_month := month doy, rd_day := day doy\<rparr>) of
        Inl e \<Rightarrow> Inl e
      | Inr dm \<Rightarrow>
        (case roll_if_past ts dm (relativedelta0\<lparr>rd_years := 1\<rparr>) of Inl e \<Rightarrow> Inl e
         | Inr dm' \<Rightarrow> Inr (Some (Time_ymd dm'))))"

definition ruleLatentTOD :: "datetime \<Rightarrow> Time \<Rightarrow> py_error + Time option" where
  "ruleLatentTOD ts tod =
     (case relativedelta_radd ts
             (relativedelta0\<lparr>rd_hour := hour tod, rd_minute := Some (or_else (minute tod) 0)\<rparr>) of
        Inl e \<Rightarrow> Inl e
      | Inr dm \<Rightarrow>
        (case roll_if_past ts dm (relativedelta0\<lparr>rd_days := 1\<rparr>) of Inl e \<Rightarrow> Inl e
         | Inr dm' \<Rightarrow>
             Inr (Some ((Time_ymd dm')\<lparr>hour := Some (dhour dm'), minute := Some (dminute dm')\<rparr>))))"

text \<open>The table \<^verbatim>\<open>pod_hours\<close>; a tag that is not a key raises \<^verbatim>\<open>KeyError\<close>.\<close>

definition pod_hours :: "string \<Rightarrow> (int \<times> int) option" where
  "pod_hours = map_of
     [(''earlymorning'', (0, 6)), (''morning'', (5, 8)), (''latemorning'', (8, 10)),
      (''earlybeforenoon'', (8, 11)), (''beforenoon'', (9, 12)), (''latebeforenoon'', (10, 13)),
      (''earlynoon'', (11, 13)), (''noon'', (12, 14)), (''latenoon'', (13, 15)),
      (''earlyafternoon'', (13, 15)), (''afternoon'', (14, 16)), (''lateafternoon'', (15, 17)),
      (''earlyevening'', (16, 18)), (''evening'', (17, 19)), (''lateevening'', (18, 20)),
      (''earlynight'', (18, 20)), (''night'', (19, 22)), (''latenight'', (20, 23))]"

text \<open>
  \<^verbatim>\<open>pod_hours[pod.POD]\<close> with \<^verbatim>\<open>pod.POD\<close> unset looks \<^verbatim>\<open>None\<close> up, which is no key
  either.
\<close>

definition ruleLatentPOD :: "datetime \<Rightarrow> Time \<Rightarrow> py_error + Time option" where
  "ruleLatentPOD ts pod =
     (case (case POD pod of None \<Rightarrow> None | Some p \<Rightarrow> pod_hours p) of None \<Rightarrow> Inl KeyError
      | Some (h_from, h_to) \<Rightarrow>
        (case relativedelta_radd ts (relativedelta0\<lparr>rd_hour := Some h_from\<rparr>) of Inl e \<Rightarrow> Inl e
         | Inr dm \<Rightarrow>
           (case roll_if_past ts dm (relativedelta0\<lparr>rd_days := 1\<rparr>) of Inl e \<Rightarrow> Inl e
            | Inr dm' \<Rightarrow> Inr (Some ((Time_ymd dm')\<lparr>POD := POD pod\<rparr>)))))"

section \<open>The naive Bayes scorer\<close>

text \<open>
  Modelled from the spec: a production is a span \<open>[mstart, mend)\<close> of the text, and a
  \<^verbatim>\<open>PartialParse\<close> holds the ordered productions \<^verbatim>\<open>prod\<close> (the field \<open>prods\<close>) and the ordered rule
  identifiers \<^verbatim>\<open>rules\<close> (\<^verbatim>\<open>ctparse/partial_parse.py\<close>).
\<close>

record production =
  mstart :: int
  mend :: int

record 'r PartialParse =
  prods :: "production list"
  rules :: "'r list"

text \<open>
  Python floats are read as real numbers and \<^verbatim>\<open>math.log\<close> as the natural logarithm;
  rounding is not modelled. The scikit-learn estimator is a parameter: \<open>model X\<close> is the
  row \<^verbatim>\<open>predict_log_proba([X])\<close> returns, the log-probabilities of the classes -1 and 1.
  \<open>str_r\<close> is Python's \<^verbatim>\<open>str\<close> on a rule identifier.
\<close>

definition feature_extractor ::
  "('r \<Rightarrow> string) \<Rightarrow> string \<Rightarrow> datetime \<Rightarrow> 'r PartialParse \<Rightarrow> string list" where
  "feature_extractor str_r txt ts partial_parse = map str_r (rules partial_parse)"

text \<open>
  \<^verbatim>\<open>math.log(a / len(txt))\<close> for an integer \<open>a\<close>: the division raises on an empty
  text, the logarithm on a ratio that is not positive.
\<close>

definition len_score :: "int \<Rightarrow> string \<Rightarrow> py_error + real" where
  "len_score a txt =
     (if length txt = 0 then Inl ZeroDivisionError
      else if real_of_int a / real (length txt) \<le> 0 then Inl ValueError
      else Inr (ln (real_of_int a / real (length txt))))"

definition score ::
  "(string list \<Rightarrow> real \<times> real) \<Rightarrow> ('r \<Rightarrow> string) \<Rightarrow> string \<Rightarrow> datetime
     \<Rightarrow> 'r PartialParse \<Rightarrow> py_error + real" where
  "score model str_r txt ts partial_parse =
     (if prods partial_parse = [] then Inl IndexError
      else
       (let max_covered_chars = mend (last (prods partial_parse)) - mstart (hd (prods partial_parse))
        in case len_score max_covered_chars txt of Inl e \<Rightarrow> Inl e
           | Inr ls \<Rightarrow>
              (let X = feature_extractor str_r txt ts partial_parse;
                   pred = model X;
                   model_score = snd pred - fst pred
               in Inr (model_score + ls))))"

text \<open>
  \<^verbatim>\<open>score_final\<close> takes the final production; only its \<^verbatim>\<open>len\<close> is read, a natural
  number.
\<close>

definition score_final ::
  "(string list \<Rightarrow> real \<times> real) \<Rightarrow> ('r \<Rightarrow> string) \<Rightarrow> string \<Rightarrow> datetime
     \<Rightarrow> 'r PartialParse \<Rightarrow> nat \<Rightarrow> py_error + real" where
  "score_final model str_r txt ts partial_parse prod_len =
     (case len_score (int prod_len) txt of Inl e \<Rightarrow> Inl e
      | Inr ls \<Rightarrow>
         (let X = feature_extractor str_r txt ts partial_parse;
              pred = model X;
              model_score = snd pred - fst pred
          in Inr (model_score + ls)))"

section \<open>Basic facts\<close>

lemma Time_unset_sel [simp]:
  "year Time_unset = None" "month Time_unset = None" "day Time_unset = None"
  "hour Time_unset = None" "minute Time_unset = None" "DOW Time_unset = None"
  "POD Time_unset = None"
  by (simp_all add: Time_unset_def)

lemma startswith_a_p: "startswith a ''a'' \<Longrightarrow> \<not> startswith a ''p''"
  by (cases a) (auto simp: startswith_def)

lemma py_int_evals:
  "py_int ''5'' = Inr 5" "py_int ''6'' = Inr 6" "py_int ''13'' = Inr 13" "py_int ''30'' = Inr 30"
  by (simp_all add: py_int_def is_digit_def digit_val_def)

section \<open>Time of day and part of day\<close>

text \<open>
  Claim C5. For a time of day with hour \<open>h\<close> and a part of day with tag \<open>p\<close>,
  \<^verbatim>\<open>ruleTODPOD\<close> returns \<^verbatim>\<open>None\<close> exactly when \<open>h > 12\<close> and \<open>p\<close> contains
  \<^verbatim>\<open>beforenoon\<close> or \<^verbatim>\<open>morning\<close>; when \<open>h \<le> 12\<close> and \<open>p\<close> contains \<^verbatim>\<open>afternoon\<close>,
  \<^verbatim>\<open>evening\<close> or \<^verbatim>\<open>night\<close> it returns a \<^verbatim>\<open>Time\<close> with hour \<open>h + 12\<close>; in every
  other case it returns a \<^verbatim>\<open>Time\<close> with hour \<open>h\<close>. The minute of the time of day is
  kept in both cases, and no other field is set.
\<close>

theorem ruleTODPOD_cases:
  assumes "hour tod = Some h" and "POD pod = Some p"
  shows "(ruleTODPOD ts tod pod = Inr None \<longleftrightarrow>
            h > 12 \<and> (str_in ''beforenoon'' p \<or> str_in ''morning'' p))
       \<and> ruleTODPOD ts tod pod =
           (if h > 12 \<and> (str_in ''beforenoon'' p \<or> str_in ''morning'' p) then Inr None
            else if h \<le> 12 \<and> (str_in ''afternoon'' p \<or> str_in ''evening'' p \<or> str_in ''night'' p)
              then Inr (Some (Time_unset\<lparr>hour := Some (h + 12), minute := minute tod\<rparr>))
            else Inr (Some (Time_unset\<lparr>hour := Some h, minute := minute tod\<rparr>)))"
  using assms by (auto simp: ruleTODPOD_def)

theorem ruleTODPOD_cases_witness:
  "ruleTODPOD \<lparr>dyear = 2022, dmonth = 3, dday = 10, dhour = 0, dminute = 0, dsecond = 0,
       dmicrosecond = 0\<rparr>
     (Time_unset\<lparr>hour := Some 17\<rparr>) (Time_unset\<lparr>POD := Some ''morning''\<rparr>) = Inr None
   \<and> ruleTODPOD \<lparr>dyear = 2022, dmonth = 3, dday = 10, dhour = 0, dminute = 0, dsecond = 0,
       dmicrosecond = 0\<rparr>
     (Time_unset\<lparr>hour := Some 3, minute := Some 30\<rparr>) (Time_unset\<lparr>POD := Some ''lateafternoon''\<rparr>)
       = Inr (Some (Time_unset\<lparr>hour := Some 15, minute := Some 30\<rparr>))
   \<and> ruleTODPOD \<lparr>dyear = 2022, dmonth = 3, dday = 10, dhour = 0, dminute = 0, dsecond = 0,
       dmicrosecond = 0\<rparr>
     (Time_unset\<lparr>hour := Some 9, minute := Some 15\<rparr>) (Time_unset\<lparr>POD := Some ''morning''\<rparr>)
       = Inr (Some (Time_unset\<lparr>hour := Some 9, minute := Some 15\<rparr>))"
  using ruleTODPOD_cases[of "Time_unset\<lparr>hour := Some 17\<rparr>" 17
      "Time_unset\<lparr>POD := Some ''morning''\<rparr>" "''morning''"]
    ruleTODPOD_cases[of "Time_unset\<lparr>hour := Some 3, minute := Some 30\<rparr>" 3
      "Time_unset\<lparr>POD := Some ''lateafternoon''\<rparr>" "''lateafternoon''"]
    ruleTODPOD_cases[of "Time_unset\<lparr>hour := Some 9, minute := Some 15\<rparr>" 9
      "Time_unset\<lparr>POD := Some ''morning''\<rparr>" "''morning''"]
  by (simp add: startswith_def)

text \<open>
  Claim C10. Combining a time of day with a part of day does not depend on the order of
  the two entities: \<^verbatim>\<open>rulePODTOD(ts, pod, tod)\<close> returns what
  \<^verbatim>\<open>ruleTODPOD(ts, tod, pod)\<close> returns, be it a \<^verbatim>\<open>Time\<close>, \<^verbatim>\<open>None\<close> or an exception.
\<close>

theorem rulePODTOD_is_ruleTODPOD: "rulePODTOD ts pod tod = ruleTODPOD ts tod pod"
  by (simp add: rulePODTOD_def)

theorem rulePODTOD_is_ruleTODPOD_witness:
  "rulePODTOD \<lparr>dyear = 2022, dmonth = 3, dday = 10, dhour = 0, dminute = 0, dsecond = 0,
       dmicrosecond = 0\<rparr>
     (Time_unset\<lparr>POD := Some ''evening''\<rparr>) (Time_unset\<lparr>hour := Some 7\<rparr>)
   = Inr (Some (Time_unset\<lparr>hour := Some 19\<rparr>))"
  using rulePODTOD_is_ruleTODPOD[of _ "Time_unset\<lparr>POD := Some ''evening''\<rparr>"
      "Time_unset\<lparr>hour := Some 7\<rparr>"]
  by (simp add: ruleTODPOD_def startswith_def Time_unset_def)

section \<open>Clock times\<close>

text \<open>
  What \<^verbatim>\<open>ruleHHMM\<close> does by the first letter of the am/pm group: it never returns
  \<^verbatim>\<open>None\<close>; without a group, or with a group and an hour above 12, the literal hour
  and minute are returned; a group that starts with \<^verbatim>\<open>p\<close> adds 12 to an hour of at
  most 12, a group that starts with \<^verbatim>\<open>a\<close> keeps it.
\<close>

lemma ruleHHMM_by_first_letter:
  assumes "py_int (g_hour m) = Inr h" and "minute_or_0 (g_minute m) = Inr mi"
  shows "ruleHHMM ts m \<noteq> Inr None
    \<and> (\<exists>t. ruleHHMM ts m = Inr (Some t))
    \<and> (g_ampm m = None \<longrightarrow>
         ruleHHMM ts m = Inr (Some (Time_unset\<lparr>hour := Some h, minute := Some mi\<rparr>)))
    \<and> (g_ampm m \<noteq> None \<and> 12 < h \<longrightarrow>
         ruleHHMM ts m = Inr (Some (Time_unset\<lparr>hour := Some h, minute := Some mi\<rparr>)))
    \<and> (g_ampm m = Some a \<and> startswith a ''p'' \<and> h \<le> 12 \<longrightarrow>
         ruleHHMM ts m = Inr (Some (Time_unset\<lparr>hour := Some (h + 12), minute := Some mi\<rparr>)))
    \<and> (g_ampm m = Some a \<and> startswith a ''a'' \<and> h \<le> 12 \<longrightarrow>
         ruleHHMM ts m = Inr (Some (Time_unset\<lparr>hour := Some h, minute := Some mi\<rparr>)))"
  using assms startswith_a_p[of a]
  by (auto simp: ruleHHMM_def Let_def split: option.splits)

text \<open>
  Claim C7 at the inputs \<^verbatim>\<open>6 uhr pm\<close> and \<^verbatim>\<open>6PM\<close>. The claim asks that a pm marker
  with an hour of at most 12 gives the hour plus 12. The pattern of \<^verbatim>\<open>ruleHHMM\<close> keeps
  the whitespace before the marker inside the \<^verbatim>\<open>ampm\<close> group, so for \<^verbatim>\<open>6 uhr pm\<close>
  the builder receives the group \<^verbatim>\<open> pm\<close>; it starts with neither \<^verbatim>\<open>a\<close> nor \<^verbatim>\<open>p\<close>,
  the last branch is taken and the hour stays 6. An upper-case marker takes the same
  branch. For the group \<^verbatim>\<open>pm\<close> the hour is 18.
\<close>

theorem ruleHHMM_pm_marker_missed:
  "ruleHHMM ts \<lparr>g_hour = ''6'', g_minute = None, g_ampm = Some '' pm''\<rparr>
     = Inr (Some \<lparr>year = None, month = None, day = None, hour = Some 6, minute = Some 0,
         DOW = None, POD = None\<rparr>)
   \<and> ruleHHMM ts \<lparr>g_hour = ''6'', g_minute = None, g_ampm = Some ''PM''\<rparr>
     = Inr (Some \<lparr>year = None, month = None, day = None, hour = Some 6, minute = Some 0,
         DOW = None, POD = None\<rparr>)
   \<and> ruleHHMM ts \<lparr>g_hour = ''6'', g_minute = None, g_ampm = Some ''pm''\<rparr>
     = Inr (Some \<lparr>year = None, month = None, day = None, hour = Some 18, minute = Some 0,
         DOW = None, POD = None\<rparr>)"
  by (simp add: ruleHHMM_def py_int_evals minute_or_0_def startswith_def Time_unset_def)

section \<open>Intervals\<close>

text \<open>
  Claim C6, as amended. For the input \<^verbatim>\<open>5 - 6pm\<close> the pm marker of the right endpoint
  is not carried over to the left one: \<^verbatim>\<open>ruleHHMM\<close> builds hour 5, minute 0 for the
  bare \<^verbatim>\<open>5\<close> and hour 18, minute 0 for \<^verbatim>\<open>6pm\<close>, and \<^verbatim>\<open>ruleTODTOD\<close> joins the two
  unchanged, so the result is the interval from 5:00 to 18:00. Its left endpoint has
  hour 5, not 17.
\<close>

theorem five_to_6pm_keeps_left_hour:
  "ruleHHMM ts \<lparr>g_hour = ''5'', g_minute = None, g_ampm = None\<rparr>
     = Inr (Some (Time_unset\<lparr>hour := Some 5, minute := Some 0\<rparr>))
   \<and> ruleHHMM ts \<lparr>g_hour = ''6'', g_minute = None, g_ampm = Some ''pm''\<rparr>
     = Inr (Some (Time_unset\<lparr>hour := Some 18, minute := Some 0\<rparr>))
   \<and> ruleTODTOD ts (Time_unset\<lparr>hour := Some 5, minute := Some 0\<rparr>)
        (Time_unset\<lparr>hour := Some 18, minute := Some 0\<rparr>)
     = Inr (Some \<lparr>t_from = Some (Time_unset\<lparr>hour := Some 5, minute := Some 0\<rparr>),
                  t_to = Some (Time_unset\<lparr>hour := Some 18, minute := Some 0\<rparr>)\<rparr>)"
  by (simp add: ruleHHMM_def ruleTODTOD_def py_int_evals minute_or_0_def startswith_def
      reject_if_def py_gt_def)

theorem five_to_6pm_keeps_left_hour_witness:
  "ruleTODTOD \<lparr>dyear = 2022, dmonth = 3, dday = 10, dhour = 0, dminute = 0, dsecond = 0,
       dmicrosecond = 0\<rparr>
     (Time_unset\<lparr>hour := Some 5, minute := Some 0\<rparr>)
     (Time_unset\<lparr>hour := Some 18, minute := Some 0\<rparr>)
     = Inr (Some \<lparr>t_from = Some (Time_unset\<lparr>hour := Some 5, minute := Some 0\<rparr>),
                  t_to = Some (Time_unset\<lparr>hour := Some 18, minute := Some 0\<rparr>)\<rparr>)"
  using five_to_6pm_keeps_left_hour[of "\<lparr>dyear = 2022, dmonth = 3, dday = 10, dhour = 0,
      dminute = 0, dsecond = 0, dmicrosecond = 0\<rparr>"]
  by simp

text \<open>
  The claim as the spec displays it fails at the reference instant 2022-03-10: the
  interval built from \<^verbatim>\<open>5\<close> and \<^verbatim>\<open>6pm\<close> is not the one from hour 17 to hour 18,
  whether or not the minutes are written out.
\<close>

theorem five_to_6pm_counterexample:
  "ruleHHMM \<lparr>dyear = 2022, dmonth = 3, dday = 10, dhour = 0, dminute = 0, dsecond = 0,
       dmicrosecond = 0\<rparr>
       \<lparr>g_hour = ''5'', g_minute = None, g_ampm = None\<rparr>
     = Inr (Some (Time_unset\<lparr>hour := Some 5, minute := Some 0\<rparr>))
   \<and> ruleHHMM \<lparr>dyear = 2022, dmonth = 3, dday = 10, dhour = 0, dminute = 0, dsecond = 0,
       dmicrosecond = 0\<rparr>
       \<lparr>g_hour = ''6'', g_minute = None, g_ampm = Some ''pm''\<rparr>
     = Inr (Some (Time_unset\<lparr>hour := Some 18, minute := Some 0\<rparr>))
   \<and> ruleTODTOD \<lparr>dyear = 2022, dmonth = 3, dday = 10, dhour = 0, dminute = 0, dsecond = 0,
       dmicrosecond = 0\<rparr>
        (Time_unset\<lparr>hour := Some 5, minute := Some 0\<rparr>)
        (Time_unset\<lparr>hour := Some 18, minute := Some 0\<rparr>)
     \<noteq> Inr (Some \<lparr>t_from = Some (Time_unset\<lparr>hour := Some 17\<rparr>),
                  t_to = Some (Time_unset\<lparr>hour := Some 18\<rparr>)\<rparr>)
   \<and> ruleTODTOD \<lparr>dyear = 2022, dmonth = 3, dday = 10, dhour = 0, dminute = 0, dsecond = 0,
       dmicrosecond = 0\<rparr>
        (Time_unset\<lparr>hour := Some 5, minute := Some 0\<rparr>)
        (Time_unset\<lparr>hour := Some 18, minute := Some 0\<rparr>)
     \<noteq> Inr (Some \<lparr>t_from = Some (Time_unset\<lparr>hour := Some 17, minute := Some 0\<rparr>),
                  t_to = Some (Time_unset\<lparr>hour := Some 18, minute := Some 0\<rparr>)\<rparr>)"
  by (simp add: ruleHHMM_def ruleTODTOD_def py_int_evals minute_or_0_def startswith_def
      reject_if_def py_gt_def Time_unset_def)

text \<open>
  The two date joins keep their endpoints in strict order: an interval comes out of
  \<^verbatim>\<open>ruleDateDate\<close> only for (year, month, day) strictly increasing, and out of
  \<^verbatim>\<open>ruleDateTimeDateTime\<close> only for (year, month, day, hour, minute) strictly
  increasing.
\<close>

lemma ruleDateDate_ordered:
  assumes "ruleDateDate ts d1 d2 = Inr (Some i)"
  shows "i = \<lparr>t_from = Some d1, t_to = Some d2\<rparr>
    \<and> (\<exists>y1 m1 a1 y2 m2 a2. year d1 = Some y1 \<and> year d2 = Some y2
          \<and> (y1 < y2 \<or> (y1 = y2 \<and> month d1 = Some m1 \<and> month d2 = Some m2
          \<and> (m1 < m2 \<or> (m1 = m2 \<and> day d1 = Some a1 \<and> day d2 = Some a2 \<and> a1 < a2)))))"
  using assms
  by (auto simp: ruleDateDate_def reject_if_def py_gt_def py_ge_def
      split: option.splits if_splits)

lemma ruleDateTimeDateTime_ordered:
  assumes "ruleDateTimeDateTime ts d1 d2 = Inr (Some i)"
  shows "i = \<lparr>t_from = Some d1, t_to = Some d2\<rparr>
    \<and> (\<exists>y1 m1 a1 h1 n1 y2 m2 a2 h2 n2. year d1 = Some y1 \<and> year d2 = Some y2
          \<and> (y1 < y2 \<or> (y1 = y2 \<and> month d1 = Some m1 \<and> month d2 = Some m2
          \<and> (m1 < m2 \<or> (m1 = m2 \<and> day d1 = Some a1 \<and> day d2 = Some a2
          \<and> (a1 < a2 \<or> (a1 = a2 \<and> hour d1 = Some h1 \<and> hour d2 = Some h2
          \<and> (h1 < h2 \<or> (h1 = h2 \<and> minute d1 = Some n1 \<and> minute d2 = Some n2
               \<and> n1 < n2)))))))))"
  using assms
  by (auto simp: ruleDateTimeDateTime_def reject_if_def py_gt_def py_ge_def
      split: option.splits if_splits)

text \<open>
  \<^verbatim>\<open>ruleTODTOD\<close> rejects a bare hour followed by a later minute of the same hour
  (\<^verbatim>\<open>6 - 6:30\<close>), the mirror image of the case its comment names (\<^verbatim>\<open>6:30 - 6\<close>).
\<close>

lemma ruleTODTOD_bare_hour_to_half_past:
  "ruleTODTOD ts (Time_unset\<lparr>hour := Some 6\<rparr>) (Time_unset\<lparr>hour := Some 6, minute := Some 30\<rparr>)
     = Inr None"
  by (simp add: ruleTODTOD_def reject_if_def py_gt_def)

text \<open>
  Claim C9 at the input \<^verbatim>\<open>6:30 - 6\<close>. The claim asks that every interval built by a
  join rule has its left endpoint strictly before the right one and that endpoints out
  of order give \<^verbatim>\<open>None\<close>. For the time of day 6:30 joined to the bare hour 6,
  \<^verbatim>\<open>ruleTODTOD\<close> returns the interval from 6:30 to 6.
\<close>

theorem ruleTODTOD_half_past_to_bare_hour:
  "ruleTODTOD ts (Time_unset\<lparr>hour := Some 6, minute := Some 30\<rparr>) (Time_unset\<lparr>hour := Some 6\<rparr>)
     = Inr (Some \<lparr>t_from = Some (Time_unset\<lparr>hour := Some 6, minute := Some 30\<rparr>),
                  t_to = Some (Time_unset\<lparr>hour := Some 6\<rparr>)\<rparr>)"
  by (simp add: ruleTODTOD_def reject_if_def py_gt_def)

section \<open>Scores\<close>

lemma len_score_pos:
  assumes "tx \<noteq> []" and "0 < a"
  shows "len_score a tx = Inr (ln (real_of_int a / real (length tx)))"
proof -
  have "0 < real_of_int a / real (length tx)"
    using assms by (simp add: divide_pos_pos)
  then show ?thesis
    using assms(1) by (simp add: len_score_def not_le[symmetric])
qed

lemma len_score_mono:
  assumes "tx \<noteq> []" and "0 < a" and "a \<le> b"
  shows "\<exists>x y. len_score a tx = Inr x \<and> len_score b tx = Inr y \<and> x \<le> y"
proof -
  have len: "0 < real (length tx)" using assms(1) by simp
  have "real_of_int a / real (length tx) \<le> real_of_int b / real (length tx)"
    using assms(3) len by (simp add: divide_right_mono)
  moreover have "0 < real_of_int a / real (length tx)"
    using assms(2) len by (simp add: divide_pos_pos)
  ultimately have "ln (real_of_int a / real (length tx)) \<le> ln (real_of_int b / real (length tx))"
    by simp
  then show ?thesis
    using len_score_pos[OF assms(1,2)] len_score_pos[OF assms(1), of b] assms(2,3) by simp
qed

text \<open>
  Claim C4. On a non-empty text, \<^verbatim>\<open>score\<close> of a partial parse with at least one
  production and a positive covered span is the model's log-odds term plus
  \<open>ln (covered / len txt)\<close>, where \<open>covered\<close> is the \<^verbatim>\<open>mend\<close> of the last production
  minus the \<^verbatim>\<open>mstart\<close> of the first, and the model term is computed from the rule
  identifiers of the partial parse alone (neither the text nor the timestamp enters
  it). \<^verbatim>\<open>score_final\<close> is the same sum with \<open>ln (len prod / len txt)\<close> for a final
  production of positive length.
\<close>

theorem score_decomposition:
  assumes "tx \<noteq> []"
  shows "(prods pp \<noteq> [] \<and> 0 < mend (last (prods pp)) - mstart (hd (prods pp)) \<longrightarrow>
           score model str_r tx ts pp =
             Inr ((snd (model (map str_r (rules pp))) - fst (model (map str_r (rules pp))))
                  + ln (real_of_int (mend (last (prods pp)) - mstart (hd (prods pp)))
                        / real (length tx))))
       \<and> (0 < n \<longrightarrow>
           score_final model str_r tx ts pp n =
             Inr ((snd (model (map str_r (rules pp))) - fst (model (map str_r (rules pp))))
                  + ln (real n / real (length tx))))"
proof (intro conjI impI)
  assume a: "prods pp \<noteq> [] \<and> 0 < mend (last (prods pp)) - mstart (hd (prods pp))"
  then show "score model str_r tx ts pp =
             Inr ((snd (model (map str_r (rules pp))) - fst (model (map str_r (rules pp))))
                  + ln (real_of_int (mend (last (prods pp)) - mstart (hd (prods pp)))
                        / real (length tx)))"
    using len_score_pos[OF assms, of "mend (last (prods pp)) - mstart (hd (prods pp))"]
    by (simp add: score_def feature_extractor_def Let_def)
next
  assume "0 < n"
  then show "score_final model str_r tx ts pp n =
             Inr ((snd (model (map str_r (rules pp))) - fst (model (map str_r (rules pp))))
                  + ln (real n / real (length tx)))"
    using len_score_pos[OF assms, of "int n"]
    by (simp add: score_final_def feature_extractor_def Let_def)
qed

theorem score_decomposition_witness:
  "score (\<lambda>X. (- 2, - 1)) (\<lambda>r. r) ''next Monday''
      \<lparr>dyear = 2022, dmonth = 3, dday = 10, dhour = 0, dminute = 0, dsecond = 0, dmicrosecond = 0\<rparr>
      \<lparr>prods = [\<lparr>mstart = 0, mend = 4\<rparr>, \<lparr>mstart = 5, mend = 11\<rparr>], rules = [''R1'', ''ruleNextDOW'']\<rparr>
     = Inr (1 + ln (11 / 11))
   \<and> score_final (\<lambda>X. (- 2, - 1)) (\<lambda>r. r) ''next Monday''
      \<lparr>dyear = 2022, dmonth = 3, dday = 10, dhour = 0, dminute = 0, dsecond = 0, dmicrosecond = 0\<rparr>
      \<lparr>prods = [\<lparr>mstart = 0, mend = 4\<rparr>, \<lparr>mstart = 5, mend = 11\<rparr>], rules = [''R1'', ''ruleNextDOW'']\<rparr> 6
     = Inr (1 + ln (6 / 11))"
  using score_decomposition[where tx = "''next Monday''"
      and pp = "\<lparr>prods = [\<lparr>mstart = 0, mend = 4\<rparr>, \<lparr>mstart = 5, mend = 11\<rparr>], rules = [''R1'', ''ruleNextDOW'']\<rparr>"
      and n = "6" and model = "\<lambda>X. (- 2, - 1)" and str_r = "\<lambda>r. r"
      and ts = "\<lparr>dyear = 2022, dmonth = 3, dday = 10, dhour = 0, dminute = 0, dsecond = 0, dmicrosecond = 0\<rparr>"]
  by simp

text \<open>
  Claim C8. For one text and two partial parses with the same rule identifiers, the
  parse with the larger positive covered span has an equal or higher \<^verbatim>\<open>score\<close>, and
  the final production of larger positive length has an equal or higher
  \<^verbatim>\<open>score_final\<close>; both scores are returned, none raises.
\<close>

theorem score_monotone_in_coverage:
  assumes "rules pp1 = rules pp2" and "tx \<noteq> []"
  shows "(prods pp1 \<noteq> [] \<and> prods pp2 \<noteq> []
          \<and> 0 < mend (last (prods pp1)) - mstart (hd (prods pp1))
          \<and> mend (last (prods pp1)) - mstart (hd (prods pp1))
              \<le> mend (last (prods pp2)) - mstart (hd (prods pp2)) \<longrightarrow>
           (\<exists>s1 s2. score model str_r tx ts pp1 = Inr s1
              \<and> score model str_r tx ts pp2 = Inr s2 \<and> s1 \<le> s2))
       \<and> (0 < n1 \<and> n1 \<le> n2 \<longrightarrow>
           (\<exists>s1 s2. score_final model str_r tx ts pp1 n1 = Inr s1
              \<and> score_final model str_r tx ts pp2 n2 = Inr s2 \<and> s1 \<le> s2))"
proof (intro conjI impI)
  assume a: "prods pp1 \<noteq> [] \<and> prods pp2 \<noteq> []
          \<and> 0 < mend (last (prods pp1)) - mstart (hd (prods pp1))
          \<and> mend (last (prods pp1)) - mstart (hd (prods pp1))
              \<le> mend (last (prods pp2)) - mstart (hd (prods pp2))"
  then obtain x y where
    "len_score (mend (last (prods pp1)) - mstart (hd (prods pp1))) tx = Inr x"
    "len_score (mend (last (prods pp2)) - mstart (hd (prods pp2))) tx = Inr y" "x \<le> y"
    using len_score_mono[OF assms(2)] by blast
  then show "\<exists>s1 s2. score model str_r tx ts pp1 = Inr s1
              \<and> score model str_r tx ts pp2 = Inr s2 \<and> s1 \<le> s2"
    using a assms(1) by (simp add: score_def feature_extractor_def Let_def)
next
  assume "0 < n1 \<and> n1 \<le> n2"
  then obtain x y where
    "len_score (int n1) tx = Inr x" "len_score (int n2) tx = Inr y" "x \<le> y"
    using len_score_mono[OF assms(2), of "int n1" "int n2"] by auto
  then show "\<exists>s1 s2. score_final model str_r tx ts pp1 n1 = Inr s1
              \<and> score_final model str_r tx ts pp2 n2 = Inr s2 \<and> s1 \<le> s2"
    using assms(1) by (simp add: score_final_def feature_extractor_def Let_def)
qed

theorem score_monotone_in_coverage_witness:
  "(\<exists>s1 s2. score (\<lambda>X. (- 2, - 1)) (\<lambda>r. r) ''next Monday''
      \<lparr>dyear = 2022, dmonth = 3, dday = 10, dhour = 0, dminute = 0, dsecond = 0, dmicrosecond = 0\<rparr>
      \<lparr>prods = [\<lparr>mstart = 5, mend = 11\<rparr>], rules = [''R1'', ''ruleNextDOW'']\<rparr> = Inr s1
    \<and> score (\<lambda>X. (- 2, - 1)) (\<lambda>r. r) ''next Monday''
      \<lparr>dyear = 2022, dmonth = 3, dday = 10, dhour = 0, dminute = 0, dsecond = 0, dmicrosecond = 0\<rparr>
      \<lparr>prods = [\<lparr>mstart = 0, mend = 4\<rparr>, \<lparr>mstart = 5, mend = 11\<rparr>], rules = [''R1'', ''ruleNextDOW'']\<rparr> = Inr s2
    \<and> s1 \<le> s2)
   \<and> (\<exists>s1 s2. score_final (\<lambda>X. (- 2, - 1)) (\<lambda>r. r) ''next Monday''
      \<lparr>dyear = 2022, dmonth = 3, dday = 10, dhour = 0, dminute = 0, dsecond = 0, dmicrosecond = 0\<rparr>
      \<lparr>prods = [\<lparr>mstart = 5, mend = 11\<rparr>], rules = [''R1'', ''ruleNextDOW'']\<rparr> 6 = Inr s1
    \<and> score_final (\<lambda>X. (- 2, - 1)) (\<lambda>r. r) ''next Monday''
      \<lparr>dyear = 2022, dmonth = 3, dday = 10, dhour = 0, dminute = 0, dsecond = 0, dmicrosecond = 0\<rparr>
      \<lparr>prods = [\<lparr>mstart = 0, mend = 4\<rparr>, \<lparr>mstart = 5, mend = 11\<rparr>], rules = [''R1'', ''ruleNextDOW'']\<rparr> 11 = Inr s2
    \<and> s1 \<le> s2)"
  using score_monotone_in_coverage[where tx = "''next Monday''"
      and ?pp1.0 = "\<lparr>prods = [\<lparr>mstart = 5, mend = 11\<rparr>], rules = [''R1'', ''ruleNextDOW'']\<rparr>"
      and ?pp2.0 = "\<lparr>prods = [\<lparr>mstart = 0, mend = 4\<rparr>, \<lparr>mstart = 5, mend = 11\<rparr>], rules = [''R1'', ''ruleNextDOW'']\<rparr>"
      and ?n1.0 = "6" and ?n2.0 = "11" and model = "\<lambda>X. (- 2, - 1)" and str_r = "\<lambda>r. r"
      and ts = "\<lparr>dyear = 2022, dmonth = 3, dday = 10, dhour = 0, dminute = 0, dsecond = 0, dmicrosecond = 0\<rparr>"]
  by simp

section \<open>Calendar facts\<close>

lemma div_step:
  fixes y k :: int
  assumes "0 < k"
  shows "y div k - (y - 1) div k = (if y mod k = 0 then 1 else 0)"
proof (cases "y mod k = 0")
  case True
  have e: "y - 1 = k * (y div k - 1) + (k - 1)"
    using mult_div_mod_eq[of k y] True by (simp add: algebra_simps)
  have "(y - 1) div k = y div k - 1"
    by (rule int_div_pos_eq[OF e]) (use assms in simp_all)
  with True show ?thesis by simp
next
  case False
  have "0 \<le> y mod k" "y mod k < k" using assms by simp_all
  with False have r: "0 \<le> y mod k - 1" "y mod k - 1 < k" by simp_all
  have e: "y - 1 = k * (y div k) + (y mod k - 1)"
    using mult_div_mod_eq[of k y] by (simp add: algebra_simps)
  have "(y - 1) div k = y div k"
    by (rule int_div_pos_eq[OF e r])
  with False show ?thesis by simp
qed

lemma mod_facts:
  fixes y :: int
  shows "y mod 400 = 0 \<Longrightarrow> y mod 100 = 0" "y mod 100 = 0 \<Longrightarrow> y mod 4 = 0"
  by (auto simp: mod_eq_0_iff_dvd elim: dvd_trans[rotated])

lemma days_before_year_Suc:
  "days_before_year (y + 1) = days_before_year y + 365 + (if isleap y then 1 else 0)"
proof -
  have e: "days_before_year (y + 1) - days_before_year y
      = 365 + (y div 4 - (y - 1) div 4) - (y div 100 - (y - 1) div 100)
        + (y div 400 - (y - 1) div 400)"
    by (simp add: days_before_year_def algebra_simps)
  have l: "(y div 4 - (y - 1) div 4) - (y div 100 - (y - 1) div 100)
        + (y div 400 - (y - 1) div 400) = (if isleap y then 1 else 0)"
    unfolding div_step[of 4 y, simplified] div_step[of 100 y, simplified]
      div_step[of 400 y, simplified] isleap_def
    using mod_facts[of y] by (cases "y mod 400 = 0"; cases "y mod 100 = 0"; cases "y mod 4 = 0") simp_all
  show ?thesis using e l by linarith
qed

lemma days_before_year_mono:
  assumes "y \<le> z"
  shows "days_before_year y \<le> days_before_year z"
  using assms
proof (induction z rule: int_ge_induct)
  case base
  show ?case by simp
next
  case (step i)
  then show ?case by (simp add: days_before_year_Suc)
qed

lemma days_before_year_bounds:
  assumes "1 \<le> y" "y \<le> 9999"
  shows "0 \<le> days_before_year y" "days_before_year y \<le> 3651694"
proof -
  have "days_before_year 1 = 0" "days_before_year 9999 = 3651694"
    by (simp_all add: days_before_year_def)
  then show "0 \<le> days_before_year y" "days_before_year y \<le> 3651694"
    using days_before_year_mono[OF assms(1)] days_before_year_mono[OF assms(2)] by simp_all
qed


lemma days_before_month_Suc:
  assumes "1 \<le> m" "m < 12"
  shows "days_before_month y (m + 1) = days_before_month y m + monthrange_days y m"
proof -
  from assms have "m = 1 \<or> m = 2 \<or> m = 3 \<or> m = 4 \<or> m = 5 \<or> m = 6 \<or> m = 7 \<or> m = 8 \<or> m = 9
    \<or> m = 10 \<or> m = 11" by arith
  then show ?thesis
    by (elim disjE) (simp_all add: days_before_month_def monthrange_days_def mdays_def)
qed

lemma days_before_month_12: "days_before_month y 12 + 31 = 365 + (if isleap y then 1 else 0)"
  by (simp add: days_before_month_def)

lemma monthrange_days_12: "monthrange_days y 12 = 31"
  by (simp add: monthrange_days_def mdays_def)

lemma days_before_month_1: "days_before_month y 1 = 0"
  by (simp add: days_before_month_def)

lemma monthrange_days_ge: "28 \<le> monthrange_days y m"
  by (simp add: monthrange_days_def mdays_def)

lemma monthrange_days_le: "monthrange_days y m \<le> 31"
  by (simp add: monthrange_days_def mdays_def)

lemma toordinal_tomorrow:
  assumes "valid_datetime dt"
  shows "toordinal (tomorrow dt) = toordinal dt + 1"
proof -
  from assms have v: "1 \<le> dmonth dt" "dmonth dt \<le> 12"
    "dday dt \<le> monthrange_days (dyear dt) (dmonth dt)"
    by (simp_all add: valid_datetime_def)
  show ?thesis
  proof (cases "dday dt < monthrange_days (dyear dt) (dmonth dt)")
    case True
    then show ?thesis by (simp add: tomorrow_def toordinal_def)
  next
    case False
    with v have eq: "dday dt = monthrange_days (dyear dt) (dmonth dt)" by simp
    show ?thesis
    proof (cases "dmonth dt < 12")
      case True
      with False v eq show ?thesis
        by (simp add: tomorrow_def toordinal_def days_before_month_Suc)
    next
      case f2: False
      with v have m: "dmonth dt = 12" by simp
      with False eq show ?thesis
        using days_before_month_12[of "dyear dt"]
        by (simp add: tomorrow_def toordinal_def days_before_year_Suc days_before_month_1
            monthrange_days_12)
    qed
  qed
qed

lemma days_before_month_day_bounds:
  assumes "1 \<le> m" "m \<le> 12" "1 \<le> d" "d \<le> monthrange_days y m"
  shows "1 \<le> days_before_month y m + d"
    and "days_before_month y m + d \<le> 365 + (if isleap y then 1 else 0)"
proof -
  from assms(1,2) have c: "m = 1 \<or> m = 2 \<or> m = 3 \<or> m = 4 \<or> m = 5 \<or> m = 6 \<or> m = 7 \<or> m = 8
    \<or> m = 9 \<or> m = 10 \<or> m = 11 \<or> m = 12" by arith
  from c assms(3) show "1 \<le> days_before_month y m + d"
    by (elim disjE) (simp_all add: days_before_month_def)
  from c assms(4) show "days_before_month y m + d \<le> 365 + (if isleap y then 1 else 0)"
    by (elim disjE) (simp_all add: days_before_month_def monthrange_days_def mdays_def)
qed

lemma isleap_9999: "\<not> isleap 9999" by (simp add: isleap_def)

lemma toordinal_bounds:
  assumes "valid_datetime dt"
  shows "1 \<le> toordinal dt" and "toordinal dt \<le> 3652059"
proof -
  from assms have v: "1 \<le> dyear dt" "dyear dt \<le> 9999" "1 \<le> dmonth dt" "dmonth dt \<le> 12"
    "1 \<le> dday dt" "dday dt \<le> monthrange_days (dyear dt) (dmonth dt)"
    by (simp_all add: valid_datetime_def)
  note a = days_before_year_bounds[OF v(1,2)]
  note b = days_before_month_day_bounds[OF v(3,4,5,6)]
  show "1 \<le> toordinal dt" using a(1) b(1) by (simp add: toordinal_def)
  show "toordinal dt \<le> 3652059"
  proof (cases "dyear dt = 9999")
    case True
    then show ?thesis using b(2) isleap_9999 by (simp add: toordinal_def days_before_year_def)
  next
    case False
    with v have "dyear dt + 1 \<le> 9999" "1 \<le> dyear dt + 1" by simp_all
    from days_before_year_bounds(2)[OF this(2,1)]
    show ?thesis using b(2) by (simp add: toordinal_def days_before_year_Suc split: if_splits)
  qed
qed

lemma toordinal_last_day:
  assumes "dyear dt = 9999" "dmonth dt = 12" "dday dt = 31"
  shows "toordinal dt = 3652059"
  using assms by (simp add: toordinal_def days_before_year_def days_before_month_def isleap_def)

lemma valid_tomorrow:
  assumes "valid_datetime dt" and "toordinal dt < 3652059"
  shows "valid_datetime (tomorrow dt)"
proof -
  from assms(1) have v: "1 \<le> dyear dt" "dyear dt \<le> 9999" "1 \<le> dmonth dt" "dmonth dt \<le> 12"
    "1 \<le> dday dt" "dday dt \<le> monthrange_days (dyear dt) (dmonth dt)"
    "0 \<le> dhour dt" "dhour dt \<le> 23" "0 \<le> dminute dt" "dminute dt \<le> 59"
    "0 \<le> dsecond dt" "dsecond dt \<le> 59" "0 \<le> dmicrosecond dt" "dmicrosecond dt \<le> 999999"
    by (simp_all add: valid_datetime_def)
  show ?thesis
  proof (cases "dday dt < monthrange_days (dyear dt) (dmonth dt)")
    case True
    with v show ?thesis by (simp add: tomorrow_def valid_datetime_def)
  next
    case False
    with v have eq: "dday dt = monthrange_days (dyear dt) (dmonth dt)" by simp
    show ?thesis
    proof (cases "dmonth dt < 12")
      case True
      with False v monthrange_days_ge[of "dyear dt" "dmonth dt + 1"] show ?thesis
        by (simp add: tomorrow_def valid_datetime_def)
    next
      case f2: False
      with v have m: "dmonth dt = 12" by simp
      with eq have d: "dday dt = 31" by (simp add: monthrange_days_12)
      have "dyear dt \<noteq> 9999" using toordinal_last_day[OF _ m d] assms(2) by auto
      with v have "dyear dt + 1 \<le> 9999" by simp
      with False f2 v monthrange_days_ge[of "dyear dt + 1" 1] show ?thesis
        by (simp add: tomorrow_def valid_datetime_def)
    qed
  qed
qed

lemma clock_tomorrow [simp]:
  "dhour (tomorrow dt) = dhour dt" "dminute (tomorrow dt) = dminute dt"
  "dsecond (tomorrow dt) = dsecond dt" "dmicrosecond (tomorrow dt) = dmicrosecond dt"
  by (simp_all add: tomorrow_def)

lemma days_later_props:
  assumes "valid_datetime dt" and "toordinal dt + int n \<le> 3652059"
  shows "valid_datetime (days_later n dt) \<and> toordinal (days_later n dt) = toordinal dt + int n
    \<and> dhour (days_later n dt) = dhour dt \<and> dminute (days_later n dt) = dminute dt
    \<and> dsecond (days_later n dt) = dsecond dt \<and> dmicrosecond (days_later n dt) = dmicrosecond dt"
  using assms
proof (induction n arbitrary: dt)
  case 0
  then show ?case by simp
next
  case (Suc n)
  from Suc.prems have lt: "toordinal dt < 3652059" by simp
  have v: "valid_datetime (tomorrow dt)" by (rule valid_tomorrow[OF Suc.prems(1) lt])
  have o: "toordinal (tomorrow dt) = toordinal dt + 1" by (rule toordinal_tomorrow[OF Suc.prems(1)])
  have "toordinal (tomorrow dt) + int n \<le> 3652059" using o Suc.prems(2) by simp
  from Suc.IH[OF v this] o show ?case by simp
qed

lemma add_days_later:
  assumes "valid_datetime dt" and "0 \<le> n" and "toordinal dt + n \<le> 3652059"
  shows "add_days dt n = Inr (days_later (nat n) dt)"
  using assms toordinal_bounds(1)[OF assms(1)] by (simp add: add_days_def)

lemma or_else_None [simp]: "or_else None d = d"
  by (simp add: or_else_def)

lemma relativedelta0_sel [simp]:
  "rd_years relativedelta0 = 0" "rd_months relativedelta0 = 0" "rd_days relativedelta0 = 0"
  "rd_month relativedelta0 = None" "rd_day relativedelta0 = None"
  "rd_weekday relativedelta0 = None" "rd_hour relativedelta0 = None"
  "rd_minute relativedelta0 = None"
  by (simp_all add: relativedelta0_def)

lemma dt_update_eq:
  "dt\<lparr>dday := d\<rparr> = dt \<longleftrightarrow> d = dday dt"
  "dt\<lparr>dmonth := m, dday := d\<rparr> = dt \<longleftrightarrow> m = dmonth dt \<and> d = dday dt"
  "dt\<lparr>dhour := h\<rparr> = dt \<longleftrightarrow> h = dhour dt"
  "dt\<lparr>dhour := h, dminute := mi\<rparr> = dt \<longleftrightarrow> h = dhour dt \<and> mi = dminute dt"
  by (cases dt; auto)+

lemma dt_le_day: "dt_le (ts\<lparr>dday := d\<rparr>) ts \<longleftrightarrow> d \<le> dday ts"
  by (auto simp: dt_le_def dt_lt_def dt_update_eq)

lemma dt_le_month_day:
  "dt_le (ts\<lparr>dmonth := m, dday := d\<rparr>) ts \<longleftrightarrow> m < dmonth ts \<or> (m = dmonth ts \<and> d \<le> dday ts)"
  by (auto simp: dt_le_def dt_lt_def dt_update_eq)

lemma dt_le_hour: "dt_le (ts\<lparr>dhour := h\<rparr>) ts \<longleftrightarrow> h \<le> dhour ts"
  by (auto simp: dt_le_def dt_lt_def dt_update_eq)

lemma dt_le_hour_minute:
  "dt_le (ts\<lparr>dhour := h, dminute := mi\<rparr>) ts \<longleftrightarrow> h < dhour ts \<or> (h = dhour ts \<and> mi \<le> dminute ts)"
  by (auto simp: dt_le_def dt_lt_def dt_update_eq)

lemma days_before_month_mono:
  assumes "1 \<le> m" "m \<le> m'" "m' \<le> 12"
  shows "days_before_month y m \<le> days_before_month y m'"
  using assms(2,3)
proof (induction m' rule: int_ge_induct)
  case base
  show ?case by simp
next
  case (step i)
  then have "days_before_month y (i + 1) = days_before_month y i + monthrange_days y i"
    using assms(1) by (intro days_before_month_Suc) simp_all
  with step monthrange_days_ge[of y i] show ?case by simp
qed

lemma toordinal_mono:
  assumes "valid_datetime a" and "valid_datetime b" and "dt_le a b"
  shows "toordinal a \<le> toordinal b"
proof -
  from assms(1) have va: "1 \<le> dyear a" "dyear a \<le> 9999" "1 \<le> dmonth a" "dmonth a \<le> 12"
    "1 \<le> dday a" "dday a \<le> monthrange_days (dyear a) (dmonth a)"
    by (simp_all add: valid_datetime_def)
  from assms(2) have vb: "1 \<le> dyear b" "dyear b \<le> 9999" "1 \<le> dmonth b" "dmonth b \<le> 12"
    "1 \<le> dday b" "dday b \<le> monthrange_days (dyear b) (dmonth b)"
    by (simp_all add: valid_datetime_def)
  from assms(3) consider
      (y) "dyear a < dyear b"
    | (m) "dyear a = dyear b" "dmonth a < dmonth b"
    | (d) "dyear a = dyear b" "dmonth a = dmonth b" "dday a \<le> dday b"
    by (auto simp: dt_le_def dt_lt_def)
  then show ?thesis
  proof cases
    case y
    have "toordinal a \<le> days_before_year (dyear a + 1)"
      using days_before_month_day_bounds(2)[OF va(3,4,5,6)]
      by (simp add: toordinal_def days_before_year_Suc)
    also have "\<dots> \<le> days_before_year (dyear b)"
      using y by (intro days_before_year_mono) simp
    also have "\<dots> \<le> toordinal b"
      using days_before_month_day_bounds(1)[OF vb(3,4,5,6)] by (simp add: toordinal_def)
    finally show ?thesis .
  next
    case m
    have "days_before_month (dyear a) (dmonth a) + dday a
        \<le> days_before_month (dyear a) (dmonth a + 1)"
      using va m vb by (simp add: days_before_month_Suc)
    also have "\<dots> \<le> days_before_month (dyear a) (dmonth b)"
      using va m vb by (intro days_before_month_mono) simp_all
    finally show ?thesis using m vb(5) by (simp add: toordinal_def)
  next
    case d
    then show ?thesis by (simp add: toordinal_def)
  qed
qed

section \<open>Weekday arithmetic\<close>

text \<open>A relativedelta without absolute fields, relative years or relative months.\<close>

lemma radd_relative_days:
  assumes "valid_datetime dt"
    and "rd_years rd = 0" "rd_months rd = 0" "rd_month rd = None" "rd_day rd = None"
    and "rd_hour rd = None" "rd_minute rd = None"
  shows "relativedelta_radd dt rd =
    (case add_days dt (rd_days rd) of Inl e \<Rightarrow> Inl e
     | Inr ret \<Rightarrow> (case rd_weekday rd of None \<Rightarrow> Inr ret
                    | Some k \<Rightarrow> add_days ret ((7 - weekday ret + k) mod 7)))"
proof -
  from assms(1) have v: "1 \<le> dyear dt" "dyear dt \<le> 9999" "1 \<le> dmonth dt" "dmonth dt \<le> 12"
    "1 \<le> dday dt" "dday dt \<le> monthrange_days (dyear dt) (dmonth dt)"
    "0 \<le> dhour dt" "dhour dt \<le> 23" "0 \<le> dminute dt" "dminute dt \<le> 59"
    by (simp_all add: valid_datetime_def)
  then show ?thesis
    using assms(2-) by (simp add: relativedelta_radd_def Let_def min_def split: sum.splits)
qed

lemma days_later_numeral [simp]:
  "days_later (numeral k) dt = days_later (pred_numeral k) (tomorrow dt)"
  by (simp add: numeral_eq_Suc)

lemma weekday_range: "0 \<le> weekday dt" "weekday dt \<le> 6"
  by (simp_all add: weekday_def)

lemma jump_val:
  fixes r w :: int
  assumes "0 \<le> r" "r \<le> 6" "0 \<le> w" "w \<le> 6"
  shows "(7 - r + w) mod 7 = (if r \<le> w then w - r else 7 + w - r)"
proof (cases "r \<le> w")
  case True
  have "(7 - r + w) mod 7 = ((w - r) + 7) mod 7" by (simp add: algebra_simps)
  also have "\<dots> = (w - r) mod 7" by simp
  also have "\<dots> = w - r" using True assms by (intro mod_pos_pos_trivial) simp_all
  finally show ?thesis using True by simp
next
  case False
  then have "(7 - r + w) mod 7 = 7 - r + w" using assms by (intro mod_pos_pos_trivial) simp_all
  with False show ?thesis by simp
qed

lemma diff_mod_val:
  fixes r w :: int
  assumes "0 \<le> r" "r \<le> 6" "0 \<le> w" "w \<le> 6"
  shows "(w - r) mod 7 = (if r \<le> w then w - r else 7 + w - r)"
proof (cases "r \<le> w")
  case True
  then have "(w - r) mod 7 = w - r" using assms by (intro mod_pos_pos_trivial) simp_all
  with True show ?thesis by simp
next
  case False
  have "(w - r) mod 7 = ((w - r) + 7) mod 7" by simp
  also have "\<dots> = w - r + 7" using False assms by (intro mod_pos_pos_trivial) simp_all
  finally show ?thesis using False by simp
qed

lemma jump_lands:
  fixes t w :: int
  assumes "0 \<le> w" "w \<le> 6"
  shows "(t + (7 - (t + 6) mod 7 + w) mod 7 + 6) mod 7 = w"
proof -
  define r where "r = (t + 6) mod 7"
  have r: "0 \<le> r" "r \<le> 6" by (simp_all add: r_def)
  have "(t + (7 - r + w) mod 7 + 6) mod 7 = ((t + 6) + (7 - r + w) mod 7) mod 7"
    by (simp add: algebra_simps)
  also have "\<dots> = (r + (7 - r + w) mod 7) mod 7"
    unfolding r_def by (simp add: mod_add_left_eq)
  also have "\<dots> = w"
  proof (cases "r \<le> w")
    case True
    then have "r + (7 - r + w) mod 7 = w" using jump_val[OF r assms] by simp
    then show ?thesis using assms by simp
  next
    case False
    then have "r + (7 - r + w) mod 7 = w + 7" using jump_val[OF r assms] by simp
    then show ?thesis using assms by simp
  qed
  finally show ?thesis by (simp add: r_def)
qed

lemma week_later:
  fixes t :: int
  shows "(t + 7 + 6) mod 7 = (t + 6) mod 7"
proof -
  have "t + 7 + 6 = (t + 6) + 7" by simp
  then show ?thesis by (simp only: mod_add_self2)
qed

lemma jump_facts:
  assumes "0 \<le> w" "w \<le> 6"
  shows "0 \<le> (7 - weekday ts + w) mod 7"
    and "(7 - weekday ts + w) mod 7 \<le> 6"
    and "(7 - weekday ts + w) mod 7 = (w - weekday ts) mod 7"
    and "(7 - weekday ts + w) mod 7 = 0 \<longleftrightarrow> w = weekday ts"
  using jump_val[OF weekday_range[of ts] assms] diff_mod_val[OF weekday_range[of ts] assms]
    weekday_range[of ts] assms
  by (simp_all split: if_splits)

lemma Time_intersect_dow_only:
  "Time_intersect (Time_ymd dm) (Time_unset\<lparr>DOW := Some w\<rparr>) ''DOW'' = Time_ymd dm"
  by (simp add: Time_intersect_def Time_ymd_def pick_def Time_unset_def)

section \<open>Grounding the other latent entities\<close>

lemma valid_fields:
  assumes "valid_datetime dt"
  shows "1 \<le> dyear dt" "dyear dt \<le> 9999" "1 \<le> dmonth dt" "dmonth dt \<le> 12"
    "1 \<le> dday dt" "dday dt \<le> monthrange_days (dyear dt) (dmonth dt)"
    "0 \<le> dhour dt" "dhour dt \<le> 23" "0 \<le> dminute dt" "dminute dt \<le> 59"
    "0 \<le> dsecond dt" "dsecond dt \<le> 59" "0 \<le> dmicrosecond dt" "dmicrosecond dt \<le> 999999"
  using assms by (simp_all add: valid_datetime_def)

lemma add_days_0:
  assumes "valid_datetime dt"
  shows "add_days dt 0 = Inr dt"
  using toordinal_bounds[OF assms] by (simp add: add_days_def)

text \<open>
  A relativedelta without relative days and weekday replaces fields: the result is the
  timestamp with the new year, month, clamped day, hour and minute, provided that is a
  date the calendar has.
\<close>

lemma radd_replace:
  assumes "rd_days rd = 0" and "rd_weekday rd = None"
    and "y = dyear dt + rd_years rd + (if rd_months rd \<noteq> 0 \<and> 12 < or_else (rd_month rd) (dmonth dt) + rd_months rd then 1
            else if rd_months rd \<noteq> 0 \<and> or_else (rd_month rd) (dmonth dt) + rd_months rd < 1 then - 1 else 0)"
    and "m = or_else (rd_month rd) (dmonth dt) + rd_months rd
          + (if rd_months rd \<noteq> 0 \<and> 12 < or_else (rd_month rd) (dmonth dt) + rd_months rd then - 12
            else if rd_months rd \<noteq> 0 \<and> or_else (rd_month rd) (dmonth dt) + rd_months rd < 1 then 12 else 0)"
    and "d = min (monthrange_days y m) (or_else (rd_day rd) (dday dt))"
    and "h = (case rd_hour rd of None \<Rightarrow> dhour dt | Some v \<Rightarrow> v)"
    and "mi = (case rd_minute rd of None \<Rightarrow> dminute dt | Some v \<Rightarrow> v)"
    and "valid_datetime (dt\<lparr>dyear := y, dmonth := m, dday := d, dhour := h, dminute := mi\<rparr>)"
  shows "relativedelta_radd dt rd
    = Inr (dt\<lparr>dyear := y, dmonth := m, dday := d, dhour := h, dminute := mi\<rparr>)"
proof -
  note v = valid_fields[OF assms(8), simplified]
  have a: "add_days (dt\<lparr>dyear := y, dmonth := m, dday := d, dhour := h, dminute := mi\<rparr>) 0
    = Inr (dt\<lparr>dyear := y, dmonth := m, dday := d, dhour := h, dminute := mi\<rparr>)"
    by (rule add_days_0[OF assms(8)])
  have y: "(if rd_months rd \<noteq> 0 \<and> 12 < or_else (rd_month rd) (dmonth dt) + rd_months rd
            then dyear dt + rd_years rd + 1
            else if rd_months rd \<noteq> 0 \<and> or_else (rd_month rd) (dmonth dt) + rd_months rd < 1
            then dyear dt + rd_years rd - 1 else dyear dt + rd_years rd) = y"
    unfolding assms(3) by simp
  have m: "(if rd_months rd \<noteq> 0 \<and> 12 < or_else (rd_month rd) (dmonth dt) + rd_months rd
            then or_else (rd_month rd) (dmonth dt) + rd_months rd - 12
            else if rd_months rd \<noteq> 0 \<and> or_else (rd_month rd) (dmonth dt) + rd_months rd < 1
            then or_else (rd_month rd) (dmonth dt) + rd_months rd + 12
            else or_else (rd_month rd) (dmonth dt) + rd_months rd) = m"
    unfolding assms(4) by simp
  have m': "(if rd_months rd \<noteq> 0 then or_else (rd_month rd) (dmonth dt) + rd_months rd
             else or_else (rd_month rd) (dmonth dt)) = or_else (rd_month rd) (dmonth dt) + rd_months rd"
    by simp
  show ?thesis
    unfolding relativedelta_radd_def Let_def m' y m assms(1,2)
      assms(5)[symmetric] assms(6)[symmetric] assms(7)[symmetric] a
    using v by simp
qed

lemma valid_replace_day:
  assumes "valid_datetime dt" and "1 \<le> d"
  shows "valid_datetime (dt\<lparr>dday := min (monthrange_days (dyear dt) (dmonth dt)) d\<rparr>)"
  using valid_fields[OF assms(1)] assms(2) monthrange_days_ge[of "dyear dt" "dmonth dt"]
  by (simp add: valid_datetime_def)

lemma valid_replace_ymd:
  assumes "valid_datetime dt" and "1 \<le> y" "y \<le> 9999" "1 \<le> m" "m \<le> 12" "1 \<le> d"
  shows "valid_datetime (dt\<lparr>dyear := y, dmonth := m, dday := min (monthrange_days y m) d\<rparr>)"
  using valid_fields[OF assms(1)] assms(2-) monthrange_days_ge[of y m]
  by (simp add: valid_datetime_def)

lemma valid_replace_clock:
  assumes "valid_datetime dt" and "0 \<le> h" "h \<le> 23" "0 \<le> mi" "mi \<le> 59"
  shows "valid_datetime (dt\<lparr>dhour := h, dminute := mi\<rparr>)"
  using valid_fields[OF assms(1)] assms(2-) by (simp add: valid_datetime_def)

lemma radd_day:
  assumes "valid_datetime dt" and "1 \<le> d"
  shows "relativedelta_radd dt (relativedelta0\<lparr>rd_day := Some d\<rparr>)
    = Inr (dt\<lparr>dday := min (monthrange_days (dyear dt) (dmonth dt)) d\<rparr>)"
  using radd_replace[where dt = dt and rd = "relativedelta0\<lparr>rd_day := Some d\<rparr>"
      and y = "dyear dt" and m = "dmonth dt"
      and d = "min (monthrange_days (dyear dt) (dmonth dt)) d"
      and h = "dhour dt" and mi = "dminute dt"]
    valid_replace_day[OF assms] assms(2)
  by (simp add: or_else_def)

lemma radd_month_day:
  assumes "valid_datetime dt" and "1 \<le> mo" "mo \<le> 12" and "1 \<le> d"
  shows "relativedelta_radd dt (relativedelta0\<lparr>rd_month := Some mo, rd_day := Some d\<rparr>)
    = Inr (dt\<lparr>dmonth := mo, dday := min (monthrange_days (dyear dt) mo) d\<rparr>)"
  using radd_replace[where dt = dt and rd = "relativedelta0\<lparr>rd_month := Some mo, rd_day := Some d\<rparr>"
      and y = "dyear dt" and m = mo
      and d = "min (monthrange_days (dyear dt) mo) d"
      and h = "dhour dt" and mi = "dminute dt"]
    valid_replace_ymd[OF assms(1) _ _ assms(2,3,4), of "dyear dt"] valid_fields(1,2)[OF assms(1)]
    assms(2,4)
  by (simp add: or_else_def)

lemma radd_months_1:
  assumes "valid_datetime dt" and "dyear dt < 9999 \<or> dmonth dt < 12"
    and "y = (if dmonth dt = 12 then dyear dt + 1 else dyear dt)"
    and "m = (if dmonth dt = 12 then 1 else dmonth dt + 1)"
  shows "relativedelta_radd dt (relativedelta0\<lparr>rd_months := 1\<rparr>)
    = Inr (dt\<lparr>dyear := y, dmonth := m, dday := min (monthrange_days y m) (dday dt)\<rparr>)"
proof -
  note v = valid_fields[OF assms(1)]
  have vy: "1 \<le> y" "y \<le> 9999" "1 \<le> m" "m \<le> 12"
    using v assms(2) unfolding assms(3,4) by auto
  have o: "or_else None (dmonth dt) = dmonth dt" by simp
  show ?thesis
    using radd_replace[where dt = dt and rd = "relativedelta0\<lparr>rd_months := 1\<rparr>"
      and y = y and m = m and d = "min (monthrange_days y m) (dday dt)"
      and h = "dhour dt" and mi = "dminute dt"]
      valid_replace_ymd[OF assms(1) vy v(5)] v(3,4)
    unfolding assms(3,4)
    by (auto simp: or_else_def)
qed

lemma radd_years_1:
  assumes "valid_datetime dt" and "dyear dt < 9999"
  shows "relativedelta_radd dt (relativedelta0\<lparr>rd_years := 1\<rparr>)
    = Inr (dt\<lparr>dyear := dyear dt + 1,
               dday := min (monthrange_days (dyear dt + 1) (dmonth dt)) (dday dt)\<rparr>)"
proof -
  note v = valid_fields[OF assms(1)]
  show ?thesis
    using radd_replace[where dt = dt and rd = "relativedelta0\<lparr>rd_years := 1\<rparr>"
      and y = "dyear dt + 1" and m = "dmonth dt"
      and d = "min (monthrange_days (dyear dt + 1) (dmonth dt)) (dday dt)"
      and h = "dhour dt" and mi = "dminute dt"]
      valid_replace_ymd[OF assms(1) _ _ v(3,4,5), of "dyear dt + 1"] v(1) assms(2)
    by (simp add: or_else_def)
qed

lemma radd_hour_minute:
  assumes "valid_datetime dt" and "0 \<le> h" "h \<le> 23" "0 \<le> mi" "mi \<le> 59"
  shows "relativedelta_radd dt (relativedelta0\<lparr>rd_hour := Some h, rd_minute := Some mi\<rparr>)
    = Inr (dt\<lparr>dhour := h, dminute := mi\<rparr>)"
  using radd_replace[where dt = dt
      and rd = "relativedelta0\<lparr>rd_hour := Some h, rd_minute := Some mi\<rparr>"
      and y = "dyear dt" and m = "dmonth dt" and d = "dday dt" and h = h and mi = mi]
    valid_replace_clock[OF assms] valid_fields(6)[OF assms(1)]
  by (simp add: or_else_def min_def)

lemma radd_hour:
  assumes "valid_datetime dt" and "0 \<le> h" "h \<le> 23"
  shows "relativedelta_radd dt (relativedelta0\<lparr>rd_hour := Some h\<rparr>) = Inr (dt\<lparr>dhour := h\<rparr>)"
  using radd_replace[where dt = dt and rd = "relativedelta0\<lparr>rd_hour := Some h\<rparr>"
      and y = "dyear dt" and m = "dmonth dt" and d = "dday dt" and h = h and mi = "dminute dt"]
    valid_replace_clock[OF assms valid_fields(9,10)[OF assms(1)]] valid_fields(6)[OF assms(1)]
  by (simp add: or_else_def min_def)

lemma radd_days_1:
  assumes "valid_datetime dt" and "toordinal dt < 3652059"
  shows "relativedelta_radd dt (relativedelta0\<lparr>rd_days := 1\<rparr>) = Inr (tomorrow dt)"
  using add_days_later[OF assms(1), of 1] assms(2)
  by (simp add: radd_relative_days[OF assms(1)])

lemma toordinal_date_only:
  "toordinal (dt\<lparr>dhour := h\<rparr>) = toordinal dt"
  "toordinal (dt\<lparr>dhour := h, dminute := mi\<rparr>) = toordinal dt"
  by (simp_all add: toordinal_def)

lemma ruleLatentDOM_rolls:
  assumes "valid_datetime ts" and "day dom_t = Some d" and "1 \<le> d"
    and "dyear ts < 9999 \<or> dmonth ts < 12"
    and "nd = min (monthrange_days (dyear ts) (dmonth ts)) d"
    and "y = (if dmonth ts = 12 then dyear ts + 1 else dyear ts)"
    and "m = (if dmonth ts = 12 then 1 else dmonth ts + 1)"
  shows "ruleLatentDOM ts dom_t =
      Inr (Some (Time_ymd (if dt_le (ts\<lparr>dday := nd\<rparr>) ts
                 then ts\<lparr>dyear := y, dmonth := m, dday := min (monthrange_days y m) nd\<rparr>
                 else ts\<lparr>dday := nd\<rparr>)))"
proof -
  have v: "valid_datetime (ts\<lparr>dday := nd\<rparr>)"
    unfolding assms(5) by (rule valid_replace_day[OF assms(1,3)])
  have naive: "relativedelta_radd ts (relativedelta0\<lparr>rd_day := day dom_t\<rparr>) = Inr (ts\<lparr>dday := nd\<rparr>)"
    unfolding assms(2) assms(5) by (rule radd_day[OF assms(1,3)])
  have roll: "relativedelta_radd (ts\<lparr>dday := nd\<rparr>) (relativedelta0\<lparr>rd_months := 1\<rparr>)
      = Inr (ts\<lparr>dyear := y, dmonth := m, dday := min (monthrange_days y m) nd\<rparr>)"
    using radd_months_1[OF v, of y m] assms(4,6,7) by simp
  show ?thesis
    by (simp add: ruleLatentDOM_def naive roll_if_past_def roll)
qed

lemma ruleLatentDOY_rolls:
  assumes "valid_datetime ts" and "month doy = Some mo" and "day doy = Some d"
    and "1 \<le> mo" "mo \<le> 12" and "1 \<le> d" and "dyear ts < 9999"
    and "nd = min (monthrange_days (dyear ts) mo) d"
  shows "ruleLatentDOY ts doy =
      Inr (Some (Time_ymd (if dt_le (ts\<lparr>dmonth := mo, dday := nd\<rparr>) ts
                 then ts\<lparr>dyear := dyear ts + 1, dmonth := mo,
                         dday := min (monthrange_days (dyear ts + 1) mo) nd\<rparr>
                 else ts\<lparr>dmonth := mo, dday := nd\<rparr>)))"
proof -
  note vt = valid_fields[OF assms(1)]
  have v: "valid_datetime (ts\<lparr>dmonth := mo, dday := nd\<rparr>)"
    using valid_replace_ymd[OF assms(1) vt(1,2) assms(4,5,6)] unfolding assms(8) by simp
  have naive: "relativedelta_radd ts (relativedelta0\<lparr>rd_month := month doy, rd_day := day doy\<rparr>)
      = Inr (ts\<lparr>dmonth := mo, dday := nd\<rparr>)"
    unfolding assms(2,3,8) by (rule radd_month_day[OF assms(1,4,5,6)])
  have roll: "relativedelta_radd (ts\<lparr>dmonth := mo, dday := nd\<rparr>) (relativedelta0\<lparr>rd_years := 1\<rparr>)
      = Inr (ts\<lparr>dyear := dyear ts + 1, dmonth := mo,
                 dday := min (monthrange_days (dyear ts + 1) mo) nd\<rparr>)"
    using radd_years_1[OF v] assms(7) by simp
  show ?thesis
    by (simp add: ruleLatentDOY_def naive roll_if_past_def roll)
qed

lemma ruleLatentTOD_rolls:
  assumes "valid_datetime ts" and "hour tod = Some h" and "0 \<le> h" "h \<le> 23"
    and "mi = or_else (minute tod) 0" and "0 \<le> mi" "mi \<le> 59"
    and "toordinal ts < 3652059"
  shows "ruleLatentTOD ts tod =
      Inr (Some ((Time_ymd (if dt_le (ts\<lparr>dhour := h, dminute := mi\<rparr>) ts
                   then tomorrow (ts\<lparr>dhour := h, dminute := mi\<rparr>)
                   else ts\<lparr>dhour := h, dminute := mi\<rparr>))
                 \<lparr>hour := Some h, minute := Some mi\<rparr>))"
proof -
  have v: "valid_datetime (ts\<lparr>dhour := h, dminute := mi\<rparr>)"
    by (rule valid_replace_clock[OF assms(1,3,4,6,7)])
  have naive: "relativedelta_radd ts
      (relativedelta0\<lparr>rd_hour := hour tod, rd_minute := Some (or_else (minute tod) 0)\<rparr>)
      = Inr (ts\<lparr>dhour := h, dminute := mi\<rparr>)"
    unfolding assms(2) assms(5)[symmetric] by (rule radd_hour_minute[OF assms(1,3,4,6,7)])
  have roll: "relativedelta_radd (ts\<lparr>dhour := h, dminute := mi\<rparr>) (relativedelta0\<lparr>rd_days := 1\<rparr>)
      = Inr (tomorrow (ts\<lparr>dhour := h, dminute := mi\<rparr>))"
    using radd_days_1[OF v] assms(8) by (simp add: toordinal_date_only)
  show ?thesis
    by (simp add: ruleLatentTOD_def naive roll_if_past_def roll)
qed

lemma pod_hours_range:
  assumes "pod_hours p = Some (h_from, h_to)"
  shows "0 \<le> h_from \<and> h_from \<le> 23"
  using assms by (auto simp: pod_hours_def split: if_splits)

lemma ruleLatentPOD_rolls:
  assumes "valid_datetime ts" and "POD pod = Some p" and "pod_hours p = Some (h_from, h_to)"
    and "toordinal ts < 3652059"
  shows "ruleLatentPOD ts pod =
      Inr (Some ((Time_ymd (if dt_le (ts\<lparr>dhour := h_from\<rparr>) ts
                   then tomorrow (ts\<lparr>dhour := h_from\<rparr>)
                   else ts\<lparr>dhour := h_from\<rparr>))
                 \<lparr>POD := Some p\<rparr>))"
proof -
  note vt = valid_fields[OF assms(1)]
  from pod_hours_range[OF assms(3)] have h: "0 \<le> h_from" "h_from \<le> 23" by simp_all
  have v: "valid_datetime (ts\<lparr>dhour := h_from\<rparr>)"
    using valid_replace_clock[OF assms(1) h vt(9,10)] by simp
  have naive: "relativedelta_radd ts (relativedelta0\<lparr>rd_hour := Some h_from\<rparr>)
      = Inr (ts\<lparr>dhour := h_from\<rparr>)"
    by (rule radd_hour[OF assms(1) h])
  have roll: "relativedelta_radd (ts\<lparr>dhour := h_from\<rparr>) (relativedelta0\<lparr>rd_days := 1\<rparr>)
      = Inr (tomorrow (ts\<lparr>dhour := h_from\<rparr>))"
    using radd_days_1[OF v] assms(4) by (simp add: toordinal_date_only)
  show ?thesis
    by (simp add: ruleLatentPOD_def assms(2,3) naive roll_if_past_def roll)
qed

text \<open>
  Claim C2. Each of \<^verbatim>\<open>ruleLatentDOM\<close>, \<^verbatim>\<open>ruleLatentDOY\<close>, \<^verbatim>\<open>ruleLatentTOD\<close> and
  \<^verbatim>\<open>ruleLatentPOD\<close> builds the naive occurrence (the reference timestamp with the day,
  the month and day, the hour and minute, or the hour replaced) and compares it with
  the reference timestamp by \<open>\<le>\<close>. When the naive occurrence is equal to or earlier
  than \<open>ts\<close> the result is one unit later: the next calendar month, the next year (the
  day clamped to the length of the month in both cases), or the next day for a time of
  day and a part of day. Otherwise the naive occurrence is the result. The comparison
  comes down to the replaced fields, so an occurrence equal to \<open>ts\<close> is rolled. The
  reference timestamp is one for which the rolled date exists (before December 9999,
  before the year 9999, before 9999-12-31).
\<close>

theorem latent_rules_roll_when_not_after:
  assumes "valid_datetime ts"
    and "nd = min (monthrange_days (dyear ts) (dmonth ts)) d"
    and "y' = (if dmonth ts = 12 then dyear ts + 1 else dyear ts)"
    and "m' = (if dmonth ts = 12 then 1 else dmonth ts + 1)"
    and "ny = min (monthrange_days (dyear ts) mo) d"
    and "mi = or_else (minute tod) 0"
  shows
   "(day dom_t = Some d \<and> 1 \<le> d \<and> (dyear ts < 9999 \<or> dmonth ts < 12) \<longrightarrow>
       ruleLatentDOM ts dom_t =
         Inr (Some (Time_ymd (if dt_le (ts\<lparr>dday := nd\<rparr>) ts
                    then ts\<lparr>dyear := y', dmonth := m', dday := min (monthrange_days y' m') nd\<rparr>
                    else ts\<lparr>dday := nd\<rparr>)))
       \<and> (dt_le (ts\<lparr>dday := nd\<rparr>) ts \<longleftrightarrow> nd \<le> dday ts))
  \<and> (month doy = Some mo \<and> day doy = Some d \<and> 1 \<le> mo \<and> mo \<le> 12 \<and> 1 \<le> d
       \<and> dyear ts < 9999 \<longrightarrow>
       ruleLatentDOY ts doy =
         Inr (Some (Time_ymd (if dt_le (ts\<lparr>dmonth := mo, dday := ny\<rparr>) ts
                    then ts\<lparr>dyear := dyear ts + 1, dmonth := mo,
                            dday := min (monthrange_days (dyear ts + 1) mo) ny\<rparr>
                    else ts\<lparr>dmonth := mo, dday := ny\<rparr>)))
       \<and> (dt_le (ts\<lparr>dmonth := mo, dday := ny\<rparr>) ts
            \<longleftrightarrow> mo < dmonth ts \<or> (mo = dmonth ts \<and> ny \<le> dday ts)))
  \<and> (hour tod = Some h \<and> 0 \<le> h \<and> h \<le> 23 \<and> 0 \<le> mi \<and> mi \<le> 59
       \<and> toordinal ts < 3652059 \<longrightarrow>
       ruleLatentTOD ts tod =
         Inr (Some ((Time_ymd (if dt_le (ts\<lparr>dhour := h, dminute := mi\<rparr>) ts
                      then tomorrow (ts\<lparr>dhour := h, dminute := mi\<rparr>)
                      else ts\<lparr>dhour := h, dminute := mi\<rparr>))
                    \<lparr>hour := Some h, minute := Some mi\<rparr>))
       \<and> (dt_le (ts\<lparr>dhour := h, dminute := mi\<rparr>) ts
            \<longleftrightarrow> h < dhour ts \<or> (h = dhour ts \<and> mi \<le> dminute ts))
       \<and> toordinal (tomorrow (ts\<lparr>dhour := h, dminute := mi\<rparr>)) = toordinal ts + 1)
  \<and> (POD pod = Some p \<and> pod_hours p = Some (h_from, h_to) \<and> toordinal ts < 3652059 \<longrightarrow>
       ruleLatentPOD ts pod =
         Inr (Some ((Time_ymd (if dt_le (ts\<lparr>dhour := h_from\<rparr>) ts
                      then tomorrow (ts\<lparr>dhour := h_from\<rparr>)
                      else ts\<lparr>dhour := h_from\<rparr>))
                    \<lparr>POD := Some p\<rparr>))
       \<and> (dt_le (ts\<lparr>dhour := h_from\<rparr>) ts \<longleftrightarrow> h_from \<le> dhour ts)
       \<and> toordinal (tomorrow (ts\<lparr>dhour := h_from\<rparr>)) = toordinal ts + 1)"
proof (intro conjI impI)
  assume a: "day dom_t = Some d \<and> 1 \<le> d \<and> (dyear ts < 9999 \<or> dmonth ts < 12)"
  then show "ruleLatentDOM ts dom_t =
         Inr (Some (Time_ymd (if dt_le (ts\<lparr>dday := nd\<rparr>) ts
                    then ts\<lparr>dyear := y', dmonth := m', dday := min (monthrange_days y' m') nd\<rparr>
                    else ts\<lparr>dday := nd\<rparr>)))"
    using ruleLatentDOM_rolls[OF assms(1) _ _ _ assms(2,3,4), of dom_t] by blast
  show "dt_le (ts\<lparr>dday := nd\<rparr>) ts \<longleftrightarrow> nd \<le> dday ts" by (rule dt_le_day)
next
  assume a: "month doy = Some mo \<and> day doy = Some d \<and> 1 \<le> mo \<and> mo \<le> 12 \<and> 1 \<le> d
       \<and> dyear ts < 9999"
  then show "ruleLatentDOY ts doy =
         Inr (Some (Time_ymd (if dt_le (ts\<lparr>dmonth := mo, dday := ny\<rparr>) ts
                    then ts\<lparr>dyear := dyear ts + 1, dmonth := mo,
                            dday := min (monthrange_days (dyear ts + 1) mo) ny\<rparr>
                    else ts\<lparr>dmonth := mo, dday := ny\<rparr>)))"
    using ruleLatentDOY_rolls[OF assms(1) _ _ _ _ _ _ assms(5), of doy] by blast
  show "dt_le (ts\<lparr>dmonth := mo, dday := ny\<rparr>) ts
            \<longleftrightarrow> mo < dmonth ts \<or> (mo = dmonth ts \<and> ny \<le> dday ts)"
    by (rule dt_le_month_day)
next
  assume a: "hour tod = Some h \<and> 0 \<le> h \<and> h \<le> 23 \<and> 0 \<le> mi \<and> mi \<le> 59
       \<and> toordinal ts < 3652059"
  then show "ruleLatentTOD ts tod =
         Inr (Some ((Time_ymd (if dt_le (ts\<lparr>dhour := h, dminute := mi\<rparr>) ts
                      then tomorrow (ts\<lparr>dhour := h, dminute := mi\<rparr>)
                      else ts\<lparr>dhour := h, dminute := mi\<rparr>))
                    \<lparr>hour := Some h, minute := Some mi\<rparr>))"
    using ruleLatentTOD_rolls[OF assms(1) _ _ _ assms(6), of h] by blast
  show "dt_le (ts\<lparr>dhour := h, dminute := mi\<rparr>) ts
            \<longleftrightarrow> h < dhour ts \<or> (h = dhour ts \<and> mi \<le> dminute ts)"
    by (rule dt_le_hour_minute)
  have "valid_datetime (ts\<lparr>dhour := h, dminute := mi\<rparr>)"
    using a by (intro valid_replace_clock[OF assms(1)]) simp_all
  from toordinal_tomorrow[OF this]
  show "toordinal (tomorrow (ts\<lparr>dhour := h, dminute := mi\<rparr>)) = toordinal ts + 1"
    by (simp add: toordinal_date_only)
next
  assume a: "POD pod = Some p \<and> pod_hours p = Some (h_from, h_to) \<and> toordinal ts < 3652059"
  then show "ruleLatentPOD ts pod =
         Inr (Some ((Time_ymd (if dt_le (ts\<lparr>dhour := h_from\<rparr>) ts
                      then tomorrow (ts\<lparr>dhour := h_from\<rparr>)
                      else ts\<lparr>dhour := h_from\<rparr>))
                    \<lparr>POD := Some p\<rparr>))"
    using ruleLatentPOD_rolls[OF assms(1), of pod p h_from h_to] by blast
  show "dt_le (ts\<lparr>dhour := h_from\<rparr>) ts \<longleftrightarrow> h_from \<le> dhour ts" by (rule dt_le_hour)
  from a pod_hours_range[of p h_from h_to] have "0 \<le> h_from" "h_from \<le> 23" by simp_all
  then have "valid_datetime (ts\<lparr>dhour := h_from\<rparr>)"
    using valid_replace_clock[OF assms(1), of h_from "dminute ts"] valid_fields(9,10)[OF assms(1)]
    by simp
  from toordinal_tomorrow[OF this]
  show "toordinal (tomorrow (ts\<lparr>dhour := h_from\<rparr>)) = toordinal ts + 1"
    by (simp add: toordinal_date_only)
qed

lemma valid_2022_03_10:
  "valid_datetime \<lparr>dyear = 2022, dmonth = 3, dday = 10, dhour = 8, dminute = 0, dsecond = 0,
     dmicrosecond = 0\<rparr>"
  "valid_datetime \<lparr>dyear = 2022, dmonth = 3, dday = 10, dhour = 0, dminute = 0, dsecond = 0,
     dmicrosecond = 0\<rparr>"
  by (simp_all add: valid_datetime_def monthrange_days_def mdays_def)

lemma toordinal_2022_03_10:
  assumes "dyear ts = 2022" "dmonth ts = 3" "dday ts = 10"
  shows "toordinal ts = 738224"
  using assms by (simp add: toordinal_def days_before_year_def days_before_month_def isleap_def)

theorem latent_rules_roll_when_not_after_witness:
  "ruleLatentDOM \<lparr>dyear = 2022, dmonth = 3, dday = 10, dhour = 8, dminute = 0, dsecond = 0,
       dmicrosecond = 0\<rparr> (Time_unset\<lparr>day := Some 10\<rparr>)
     = Inr (Some (Time_unset\<lparr>year := Some 2022, month := Some 4, day := Some 10\<rparr>))
   \<and> ruleLatentDOY \<lparr>dyear = 2022, dmonth = 3, dday = 10, dhour = 8, dminute = 0, dsecond = 0,
       dmicrosecond = 0\<rparr> (Time_unset\<lparr>month := Some 3, day := Some 10\<rparr>)
     = Inr (Some (Time_unset\<lparr>year := Some 2023, month := Some 3, day := Some 10\<rparr>))
   \<and> ruleLatentTOD \<lparr>dyear = 2022, dmonth = 3, dday = 10, dhour = 8, dminute = 0, dsecond = 0,
       dmicrosecond = 0\<rparr> (Time_unset\<lparr>hour := Some 8\<rparr>)
     = Inr (Some (Time_unset\<lparr>year := Some 2022, month := Some 3, day := Some 11,
          hour := Some 8, minute := Some 0\<rparr>))
   \<and> ruleLatentPOD \<lparr>dyear = 2022, dmonth = 3, dday = 10, dhour = 8, dminute = 0, dsecond = 0,
       dmicrosecond = 0\<rparr> (Time_unset\<lparr>POD := Some ''latemorning''\<rparr>)
     = Inr (Some (Time_unset\<lparr>year := Some 2022, month := Some 3, day := Some 11,
          POD := Some ''latemorning''\<rparr>))"
  using latent_rules_roll_when_not_after[OF valid_2022_03_10(1) refl refl refl refl refl,
      where d = 10 and mo = 3 and dom_t = "Time_unset\<lparr>day := Some 10\<rparr>"
        and doy = "Time_unset\<lparr>month := Some 3, day := Some 10\<rparr>"
        and tod = "Time_unset\<lparr>hour := Some 8\<rparr>" and h = 8
        and pod = "Time_unset\<lparr>POD := Some ''latemorning''\<rparr>" and p = "''latemorning''"
        and h_from = 8 and h_to = 10]
  by (simp add: toordinal_2022_03_10 monthrange_days_def mdays_def isleap_def or_else_def
      pod_hours_def Time_ymd_def tomorrow_def Time_unset_def)

section \<open>Days before and ordinals\<close>

lemma toordinal_yesterday:
  assumes "valid_datetime dt"
  shows "toordinal (yesterday dt) = toordinal dt - 1"
proof -
  note v = valid_fields[OF assms]
  show ?thesis
  proof (cases "1 < dday dt")
    case True
    then show ?thesis by (simp add: yesterday_def toordinal_def)
  next
    case False
    with v have d: "dday dt = 1" by simp
    show ?thesis
    proof (cases "1 < dmonth dt")
      case True
      have "days_before_month (dyear dt) (dmonth dt - 1 + 1)
          = days_before_month (dyear dt) (dmonth dt - 1)
            + monthrange_days (dyear dt) (dmonth dt - 1)"
        using True v by (intro days_before_month_Suc) simp_all
      with True d show ?thesis by (simp add: yesterday_def toordinal_def)
    next
      case f2: False
      with v have m: "dmonth dt = 1" by simp
      show ?thesis
        using days_before_year_Suc[of "dyear dt - 1"] days_before_month_12[of "dyear dt - 1"] d m
        by (simp add: yesterday_def toordinal_def days_before_month_1)
    qed
  qed
qed

lemma valid_yesterday:
  assumes "valid_datetime dt" and "1 < toordinal dt"
  shows "valid_datetime (yesterday dt)"
proof -
  note v = valid_fields[OF assms(1)]
  show ?thesis
  proof (cases "1 < dday dt")
    case True
    with v show ?thesis by (simp add: yesterday_def valid_datetime_def)
  next
    case False
    with v have d: "dday dt = 1" by simp
    show ?thesis
    proof (cases "1 < dmonth dt")
      case True
      with d v monthrange_days_ge[of "dyear dt" "dmonth dt - 1"] show ?thesis
        by (simp add: yesterday_def valid_datetime_def)
    next
      case f2: False
      with v have m: "dmonth dt = 1" by simp
      have "dyear dt \<noteq> 1"
        using assms(2) d m by (auto simp: toordinal_def days_before_year_def days_before_month_1)
      with v have "1 \<le> dyear dt - 1" by simp
      with d m v show ?thesis
        by (simp add: yesterday_def valid_datetime_def monthrange_days_12)
    qed
  qed
qed

lemma clock_yesterday [simp]:
  "dhour (yesterday dt) = dhour dt" "dminute (yesterday dt) = dminute dt"
  "dsecond (yesterday dt) = dsecond dt" "dmicrosecond (yesterday dt) = dmicrosecond dt"
  by (simp_all add: yesterday_def)

lemma days_earlier_props:
  assumes "valid_datetime dt" and "1 \<le> toordinal dt - int n"
  shows "valid_datetime (days_earlier n dt) \<and> toordinal (days_earlier n dt) = toordinal dt - int n
    \<and> dhour (days_earlier n dt) = dhour dt \<and> dminute (days_earlier n dt) = dminute dt
    \<and> dsecond (days_earlier n dt) = dsecond dt
    \<and> dmicrosecond (days_earlier n dt) = dmicrosecond dt"
  using assms
proof (induction n arbitrary: dt)
  case 0
  then show ?case by simp
next
  case (Suc n)
  from Suc.prems have gt: "1 < toordinal dt" by simp
  have v: "valid_datetime (yesterday dt)" by (rule valid_yesterday[OF Suc.prems(1) gt])
  have o: "toordinal (yesterday dt) = toordinal dt - 1"
    by (rule toordinal_yesterday[OF Suc.prems(1)])
  have "1 \<le> toordinal (yesterday dt) - int n" using o Suc.prems(2) by simp
  from Suc.IH[OF v this] o show ?case by simp
qed

text \<open>
  Stepping the calendar agrees with the arithmetic on ordinals that Python performs:
  whenever the addition returns, the result is the valid date whose ordinal is the sum,
  with the clock untouched.
\<close>

lemma add_days_correct:
  assumes "valid_datetime dt" and "add_days dt n = Inr dt'"
  shows "valid_datetime dt' \<and> toordinal dt' = toordinal dt + n
    \<and> dhour dt' = dhour dt \<and> dminute dt' = dminute dt
    \<and> dsecond dt' = dsecond dt \<and> dmicrosecond dt' = dmicrosecond dt"
proof (cases "0 \<le> n")
  case True
  with assms(2) have b: "toordinal dt + int (nat n) \<le> 3652059" and e: "dt' = days_later (nat n) dt"
    by (auto simp: add_days_def split: if_splits)
  from days_later_props[OF assms(1) b] True show ?thesis unfolding e by simp
next
  case False
  with assms(2) have b: "1 \<le> toordinal dt - int (nat (- n))"
    and e: "dt' = days_earlier (nat (- n)) dt"
    by (auto simp: add_days_def split: if_splits)
  from days_earlier_props[OF assms(1) b] False show ?thesis unfolding e by simp
qed

section \<open>Grounding a day of week\<close>

lemma ruleLatentDOW_days_later:
  assumes "valid_datetime ts" and "0 \<le> w" and "w \<le> 6"
    and "k = (if w = weekday ts then 7 else (w - weekday ts) mod 7)"
    and "toordinal ts + k \<le> 3652059"
  shows "ruleLatentDOW ts (Time_unset\<lparr>DOW := Some w\<rparr>)
      = Inr (Some (Time_ymd (days_later (nat k) ts)))
    \<and> valid_datetime (days_later (nat k) ts) \<and> weekday (days_later (nat k) ts) = w
    \<and> toordinal (days_later (nat k) ts) = toordinal ts + k \<and> 1 \<le> k \<and> k \<le> 7"
proof -
  define j where "j = (7 - weekday ts + w) mod 7"
  note jf = jump_facts[OF assms(2,3), of ts, folded j_def]
  have lands: "(toordinal ts + j + 6) mod 7 = w"
    unfolding j_def weekday_def by (rule jump_lands[OF assms(2,3)])
  have wa: "weekday_arg (Some w) = Inr (Some w)"
    using assms(2,3) by (simp add: weekday_arg_def)
  have a0: "add_days ts 0 = Inr ts" by (rule add_days_0[OF assms(1)])
  show ?thesis
  proof (cases "j = 0")
    case True
    then have same: "w = weekday ts" using jf(4) by simp
    then have k: "k = 7" using assms(4) by simp
    have naive: "relativedelta_radd ts (relativedelta0\<lparr>rd_weekday := Some w\<rparr>) = Inr ts"
      using True a0 by (simp add: radd_relative_days[OF assms(1)] j_def[symmetric])
    have a7: "add_days ts 7 = Inr (days_later (nat 7) ts)"
      using assms(5) k by (intro add_days_later[OF assms(1)]) simp_all
    have p7: "valid_datetime (days_later (nat 7) ts)"
      "toordinal (days_later (nat 7) ts) = toordinal ts + 7"
      using days_later_props[OF assms(1), of "nat 7"] assms(5) k by simp_all
    have roll: "roll_if_past ts ts (relativedelta0\<lparr>rd_days := 7\<rparr>)
        = Inr (days_later (nat 7) ts)"
      unfolding roll_if_past_def using a7
      by (simp add: dt_le_def radd_relative_days[OF assms(1)] del: days_later_numeral)
    have r: "ruleLatentDOW ts (Time_unset\<lparr>DOW := Some w\<rparr>)
        = Inr (Some (Time_ymd (days_later (nat 7) ts)))"
      unfolding ruleLatentDOW_def
      by (simp add: wa naive roll Time_intersect_dow_only del: days_later_numeral)
    have wd: "weekday (days_later (nat 7) ts) = w"
      unfolding weekday_def p7(2) same by (rule week_later)
    show ?thesis unfolding k using r p7 wd by simp
  next
    case False
    with jf(1) have pos: "0 < j" by simp
    have ne: "w \<noteq> weekday ts" using False jf(4) by simp
    then have k: "k = j" using assms(4) jf(3) by simp
    have aj: "add_days ts j = Inr (days_later (nat j) ts)"
      using jf(1) assms(5) k by (intro add_days_later[OF assms(1)]) simp_all
    have naive: "relativedelta_radd ts (relativedelta0\<lparr>rd_weekday := Some w\<rparr>)
        = Inr (days_later (nat j) ts)"
      using aj by (simp add: radd_relative_days[OF assms(1)] a0 j_def)
    have p: "valid_datetime (days_later (nat j) ts)"
      "toordinal (days_later (nat j) ts) = toordinal ts + j"
      using days_later_props[OF assms(1), of "nat j"] jf(1) assms(5) k by simp_all
    have nle: "\<not> dt_le (days_later (nat j) ts) ts"
      using toordinal_mono[OF p(1) assms(1)] p(2) pos by auto
    have roll: "roll_if_past ts (days_later (nat j) ts) (relativedelta0\<lparr>rd_days := 7\<rparr>)
        = Inr (days_later (nat j) ts)"
      using nle by (simp add: roll_if_past_def)
    have r: "ruleLatentDOW ts (Time_unset\<lparr>DOW := Some w\<rparr>)
        = Inr (Some (Time_ymd (days_later (nat j) ts)))"
      by (simp add: ruleLatentDOW_def wa naive roll Time_intersect_dow_only)
    have wd: "weekday (days_later (nat j) ts) = w"
      unfolding weekday_def p(2) by (rule lands)
    show ?thesis unfolding k using r p wd pos jf(2) by simp
  qed
qed

text \<open>The comparison of datetimes is total.\<close>

lemma dt_lt_total:
  assumes "\<not> dt_le a b"
  shows "dt_lt b a"
proof -
  from assms have n: "\<not> dt_lt a b" "a \<noteq> b" by (simp_all add: dt_le_def)
  from n(2) have "dyear a \<noteq> dyear b \<or> dmonth a \<noteq> dmonth b \<or> dday a \<noteq> dday b
      \<or> dhour a \<noteq> dhour b \<or> dminute a \<noteq> dminute b \<or> dsecond a \<noteq> dsecond b
      \<or> dmicrosecond a \<noteq> dmicrosecond b"
    by (cases a; cases b) auto
  with n(1) show ?thesis unfolding dt_lt_def by linarith
qed

text \<open>
  Claim C1. Let \<open>ts\<close> be a reference timestamp and \<open>w\<close> a weekday, and let \<open>k\<close> be
  \<open>(w - weekday ts) mod 7\<close>, or 7 when \<open>w\<close> is the weekday of \<open>ts\<close> itself (the naive
  target is then the date of \<open>ts\<close>). Provided the day \<open>k\<close> days after \<open>ts\<close> is one
  \<^verbatim>\<open>datetime\<close> can hold (not after 9999-12-31; otherwise the date arithmetic raises
  \<^verbatim>\<open>OverflowError\<close>), \<^verbatim>\<open>ruleLatentDOW\<close> applied to the \<^verbatim>\<open>Time\<close> with only
  \<^verbatim>\<open>DOW = w\<close> set returns the \<^verbatim>\<open>Time\<close> whose year, month and day are those of that
  day \<open>dm\<close> and whose other fields are unset. The day \<open>dm\<close> is a calendar date, its
  weekday is \<open>w\<close>, it lies \<open>k\<close> days (between 1 and 7) after the date of \<open>ts\<close>, and
  \<open>ts < dm\<close> in Python's comparison of datetimes.
\<close>

theorem ruleLatentDOW_next_weekday:
  assumes "valid_datetime ts" and "0 \<le> w" and "w \<le> 6"
    and "k = (if w = weekday ts then 7 else (w - weekday ts) mod 7)"
    and "toordinal ts + k \<le> 3652059"
    and "dm = days_later (nat k) ts"
  shows "ruleLatentDOW ts \<lparr>year = None, month = None, day = None, hour = None, minute = None,
        DOW = Some w, POD = None\<rparr>
      = Inr (Some \<lparr>year = Some (dyear dm), month = Some (dmonth dm), day = Some (dday dm),
           hour = None, minute = None, DOW = None, POD = None\<rparr>)
    \<and> valid_datetime dm \<and> weekday dm = w \<and> toordinal dm = toordinal ts + k
    \<and> 1 \<le> k \<and> k \<le> 7 \<and> dt_lt ts dm"
proof -
  note h = ruleLatentDOW_days_later[OF assms(1,2,3,4,5), folded assms(6)]
  have i: "\<lparr>year = None, month = None, day = None, hour = None, minute = None,
        DOW = Some w, POD = None\<rparr> = Time_unset\<lparr>DOW := Some w\<rparr>"
    by (simp add: Time_unset_def)
  have o: "Time_ymd dm = \<lparr>year = Some (dyear dm), month = Some (dmonth dm),
      day = Some (dday dm), hour = None, minute = None, DOW = None, POD = None\<rparr>"
    by (simp add: Time_ymd_def Time_unset_def)
  have "\<not> dt_le dm ts"
    using toordinal_mono[of dm ts] h assms(1) by auto
  then have "dt_lt ts dm" by (rule dt_lt_total)
  then show ?thesis using h unfolding i o by simp
qed

text \<open>
  Thursday 2022-03-10: the latent Thursday is grounded a week later, the latent Monday
  four days later. Monday 9999-12-27: the latent Friday is grounded on the last day of
  the calendar.
\<close>

theorem ruleLatentDOW_next_weekday_witness:
  "ruleLatentDOW \<lparr>dyear = 2022, dmonth = 3, dday = 10, dhour = 0, dminute = 0,
        dsecond = 0, dmicrosecond = 0\<rparr>
      \<lparr>year = None, month = None, day = None, hour = None, minute = None,
        DOW = Some 3, POD = None\<rparr>
    = Inr (Some \<lparr>year = Some 2022, month = Some 3, day = Some 17,
           hour = None, minute = None, DOW = None, POD = None\<rparr>)
   \<and> ruleLatentDOW \<lparr>dyear = 2022, dmonth = 3, dday = 10, dhour = 0, dminute = 0,
        dsecond = 0, dmicrosecond = 0\<rparr>
      \<lparr>year = None, month = None, day = None, hour = None, minute = None,
        DOW = Some 0, POD = None\<rparr>
    = Inr (Some \<lparr>year = Some 2022, month = Some 3, day = Some 14,
           hour = None, minute = None, DOW = None, POD = None\<rparr>)
   \<and> ruleLatentDOW \<lparr>dyear = 9999, dmonth = 12, dday = 27, dhour = 0, dminute = 0,
        dsecond = 0, dmicrosecond = 0\<rparr>
      \<lparr>year = None, month = None, day = None, hour = None, minute = None,
        DOW = Some 4, POD = None\<rparr>
    = Inr (Some \<lparr>year = Some 9999, month = Some 12, day = Some 31,
           hour = None, minute = None, DOW = None, POD = None\<rparr>)"
proof -
  have o: "toordinal \<lparr>dyear = 2022, dmonth = 3, dday = 10, dhour = 0, dminute = 0,
        dsecond = 0, dmicrosecond = 0\<rparr> = 738224"
    by (rule toordinal_2022_03_10) simp_all
  have w: "weekday \<lparr>dyear = 2022, dmonth = 3, dday = 10, dhour = 0, dminute = 0,
        dsecond = 0, dmicrosecond = 0\<rparr> = 3"
    unfolding weekday_def o by simp
  have v9: "valid_datetime \<lparr>dyear = 9999, dmonth = 12, dday = 27, dhour = 0, dminute = 0,
        dsecond = 0, dmicrosecond = 0\<rparr>"
    by (simp add: valid_datetime_def monthrange_days_def mdays_def)
  have o9: "toordinal \<lparr>dyear = 9999, dmonth = 12, dday = 27, dhour = 0, dminute = 0,
        dsecond = 0, dmicrosecond = 0\<rparr> = 3652055"
    by (simp add: toordinal_def days_before_year_def days_before_month_def isleap_def)
  have w9: "weekday \<lparr>dyear = 9999, dmonth = 12, dday = 27, dhour = 0, dminute = 0,
        dsecond = 0, dmicrosecond = 0\<rparr> = 0"
    unfolding weekday_def o9 by simp
  show ?thesis
    using ruleLatentDOW_next_weekday[OF valid_2022_03_10(2) _ _ refl _ refl, of 3]
      ruleLatentDOW_next_weekday[OF valid_2022_03_10(2) _ _ refl _ refl, of 0]
      ruleLatentDOW_next_weekday[OF v9 _ _ refl _ refl, of 4]
    unfolding o w o9 w9
    by (simp add: tomorrow_def monthrange_days_def mdays_def isleap_def)
qed

section \<open>Concrete days\<close>

text \<open>
  From any instant of 2022-03-10, the week of \<^verbatim>\<open>relativedelta(weekday=0, weeks=1)\<close> is
  added first (Thursday 2022-03-17), then the date moves on to the first Monday from
  there.
\<close>

lemma radd_next_monday_2022_03_10:
  assumes "valid_datetime ts" and "dyear ts = 2022" and "dmonth ts = 3" and "dday ts = 10"
  shows "relativedelta_radd ts (relativedelta0\<lparr>rd_weekday := Some 0, rd_days := 7\<rparr>)
    = Inr (ts\<lparr>dday := 21\<rparr>)"
proof -
  have o: "toordinal ts = 738224" by (rule toordinal_2022_03_10[OF assms(2,3,4)])
  have l7: "days_later 7 ts = ts\<lparr>dday := 17\<rparr>"
    using assms(2,3,4) by (simp add: tomorrow_def monthrange_days_def mdays_def)
  have a7: "add_days ts 7 = Inr (ts\<lparr>dday := 17\<rparr>)"
    using add_days_later[OF assms(1), of 7] o unfolding l7[symmetric] by simp
  have v17: "valid_datetime (ts\<lparr>dday := 17\<rparr>)"
    using assms by (simp add: valid_datetime_def monthrange_days_def mdays_def)
  have o17: "toordinal (ts\<lparr>dday := 17\<rparr>) = 738231"
    using o assms(4) by (simp add: toordinal_def)
  have w17: "weekday (ts\<lparr>dday := 17\<rparr>) = 3"
    unfolding weekday_def o17 by simp
  have l4: "days_later 4 (ts\<lparr>dday := 17\<rparr>) = ts\<lparr>dday := 21\<rparr>"
    using assms(2,3,4) by (simp add: tomorrow_def monthrange_days_def mdays_def)
  have a4: "add_days (ts\<lparr>dday := 17\<rparr>) 4 = Inr (ts\<lparr>dday := 21\<rparr>)"
    using add_days_later[OF v17, of 4] o17 unfolding l4[symmetric] by simp
  show ?thesis
    by (simp add: radd_relative_days[OF assms(1)] a7 w17 a4)
qed

text \<open>
  Claim C3, as amended. The reference instant 2022-03-10 is a Thursday, and
  \<^verbatim>\<open>ruleNextDOW\<close> applied to a day-of-week entity for Monday yields
  \<^verbatim>\<open>Time(year=2022, month=3, day=21)\<close>: the week is added first, then the date moves
  forward to a Monday.
\<close>

theorem ruleNextDOW_monday_from_2022_03_10:
  assumes "valid_datetime ts" and "dyear ts = 2022" and "dmonth ts = 3" and "dday ts = 10"
  shows "weekday ts = 3
    \<and> ruleNextDOW ts (Time_unset\<lparr>DOW := Some 0\<rparr>)
        = Inr (Some (Time_unset\<lparr>year := Some 2022, month := Some 3, day := Some 21\<rparr>))"
proof -
  have "weekday ts = 3"
    unfolding weekday_def toordinal_2022_03_10[OF assms(2,3,4)] by simp
  moreover have "ruleNextDOW ts (Time_unset\<lparr>DOW := Some 0\<rparr>)
        = Inr (Some (Time_unset\<lparr>year := Some 2022, month := Some 3, day := Some 21\<rparr>))"
    using assms(2,3)
    by (simp add: ruleNextDOW_def weekday_arg_def radd_next_monday_2022_03_10[OF assms]
        Time_intersect_dow_only) (simp add: Time_ymd_def)
  ultimately show ?thesis by simp
qed

theorem ruleNextDOW_monday_from_2022_03_10_witness:
  "ruleNextDOW \<lparr>dyear = 2022, dmonth = 3, dday = 10, dhour = 0, dminute = 0, dsecond = 0,
       dmicrosecond = 0\<rparr> (Time_unset\<lparr>DOW := Some 0\<rparr>)
     = Inr (Some (Time_unset\<lparr>year := Some 2022, month := Some 3, day := Some 21\<rparr>))"
  using ruleNextDOW_monday_from_2022_03_10[OF valid_2022_03_10(2)] by simp

text \<open>The result is not \<^verbatim>\<open>Time(year=2022, month=3, day=14)\<close>, the date the claim names.\<close>

theorem ruleNextDOW_monday_counterexample:
  "ruleNextDOW \<lparr>dyear = 2022, dmonth = 3, dday = 10, dhour = 0, dminute = 0, dsecond = 0,
       dmicrosecond = 0\<rparr> (Time_unset\<lparr>DOW := Some 0\<rparr>)
     \<noteq> Inr (Some (Time_unset\<lparr>year := Some 2022, month := Some 3, day := Some 14\<rparr>))"
  by (simp add: ruleNextDOW_def weekday_arg_def
      radd_next_monday_2022_03_10[OF valid_2022_03_10(2)] Time_intersect_dow_only)
    (simp add: Time_ymd_def Time_unset_def)

text \<open>
  At the other end of the calendar the week cannot be added: on Friday 9999-12-31 the
  latent Friday makes \<^verbatim>\<open>ruleLatentDOW\<close> raise \<^verbatim>\<open>OverflowError\<close>.
\<close>

lemma ruleLatentDOW_last_day:
  "ruleLatentDOW \<lparr>dyear = 9999, dmonth = 12, dday = 31, dhour = 0, dminute = 0, dsecond = 0,
       dmicrosecond = 0\<rparr> (Time_unset\<lparr>DOW := Some 4\<rparr>) = Inl OverflowError"
proof -
  have v: "valid_datetime \<lparr>dyear = 9999, dmonth = 12, dday = 31, dhour = 0, dminute = 0,
      dsecond = 0, dmicrosecond = 0\<rparr>"
    by (simp add: valid_datetime_def monthrange_days_def mdays_def)
  have o: "toordinal \<lparr>dyear = 9999, dmonth = 12, dday = 31, dhour = 0, dminute = 0,
      dsecond = 0, dmicrosecond = 0\<rparr> = 3652059"
    by (rule toordinal_last_day) simp_all
  have w: "weekday \<lparr>dyear = 9999, dmonth = 12, dday = 31, dhour = 0, dminute = 0,
      dsecond = 0, dmicrosecond = 0\<rparr> = 4"
    unfolding weekday_def o by simp
  show ?thesis
    by (simp add: ruleLatentDOW_def weekday_arg_def radd_relative_days[OF v] add_days_0[OF v] w
        roll_if_past_def dt_le_def add_days_def o)
qed

end
